theory Spec2Isabelle
  imports Complex_Main "HOL-Library.AList" "HOL-Library.Sublist"
begin

section \<open>Data model of the dependency analyzer\<close>

text \<open>
  The types of \<^verbatim>\<open>src/src/dependencyManager.ts\<close>, and those it imports from
  \<^verbatim>\<open>projectScanner.ts\<close>, whose text is in the bundle \<^verbatim>\<open>src/src/deepseekapi.ts\<close>. A JavaScript
  \<^verbatim>\<open>Map\<close> iterates in insertion order and \<^verbatim>\<open>set\<close> on a present key keeps the key's
  position, so the two maps of a graph are association lists with distinct keys, written
  with \<open>AList.update\<close> and read with \<open>map_of\<close>. Strings are lists of 8-bit characters.
\<close>

datatype DependencyType = Import | Export | Reference | Usage | StyleImport | HtmlLink | Unknown

text \<open>
  The enum \<^verbatim>\<open>FileType\<close> of \<^verbatim>\<open>projectScanner.ts\<close> (\<^verbatim>\<open>src/src/deepseekapi.ts\<close>, lines 66 to 75).
  Its member \<^verbatim>\<open>Unknown\<close> is \<open>UnknownFile\<close> here, \<open>Unknown\<close> being the member of
  \<open>DependencyType\<close>.
\<close>

datatype FileType =
  JavaScript | TypeScript | HTML | CSS | JSON | Markdown | Image | UnknownFile

text \<open>
  The interface \<^verbatim>\<open>FileInfo\<close> (lines 78 to 87 of the bundle). The field \<^verbatim>\<open>size\<close> is
  \<open>size_bytes\<close> here, a number of bytes; \<^verbatim>\<open>lastModified\<close>, a \<^verbatim>\<open>Date\<close>, is its time value; the
  optional \<^verbatim>\<open>content\<close> is \<open>None\<close> when absent.
\<close>

record FileInfo =
  path :: string
  relativePath :: string
  name :: string
  extension :: string
  type :: FileType
  size_bytes :: nat
  lastModified :: int
  content :: "string option"

text \<open>
  The interfaces \<^verbatim>\<open>DirectoryInfo\<close> (lines 90 to 96; the arguments are \<^verbatim>\<open>path\<close>,
  \<^verbatim>\<open>relativePath\<close>, \<^verbatim>\<open>name\<close>, \<^verbatim>\<open>files\<close> and \<^verbatim>\<open>directories\<close>) and \<^verbatim>\<open>ProjectStructure\<close> (lines
  99 to 104). The field \<^verbatim>\<open>workspaceRoot\<close> of a project structure is \<open>workspaceRoot_s\<close>
  here, \<open>workspaceRoot\<close> being the field of the manager below.
\<close>

datatype DirectoryInfo =
  DirectoryInfo string string string "FileInfo list" "DirectoryInfo list"

record ProjectStructure =
  workspaceRoot_s :: string
  rootDirectories :: "DirectoryInfo list"
  rootFiles :: "FileInfo list"
  allFiles :: "FileInfo list"

text \<open>The field \<^verbatim>\<open>type\<close> of a dependency is \<open>dtype\<close>; an absent \<^verbatim>\<open>lineNumbers\<close> is \<open>None\<close>.\<close>

record Dependency =
  source :: string
  target :: string
  dtype :: DependencyType
  lineNumbers :: "nat list option"
  isExternal :: bool

record DependencyGraph =
  nodes :: "(string \<times> FileInfo) list"
  edges :: "(string \<times> (string \<times> Dependency) list) list"

section \<open>Strings\<close>

text \<open>
  The string methods the analyzer calls. A JavaScript string is a sequence of UTF-16 code
  units; the model has the strings whose code units are below 256.
\<close>

definition startsWith :: "string \<Rightarrow> string \<Rightarrow> bool" where
  "startsWith s p = prefix p s"

definition endsWith :: "string \<Rightarrow> string \<Rightarrow> bool" where
  "endsWith s p = suffix p s"

text \<open>\<^verbatim>\<open>s.includes(p)\<close>.\<close>

definition includesStr :: "string \<Rightarrow> string \<Rightarrow> bool" where
  "includesStr s p = sublist p s"

text \<open>\<^verbatim>\<open>s.split(c)\<close> for a one-character separator: the empty string gives one empty piece.\<close>

fun splitOn :: "char \<Rightarrow> string \<Rightarrow> string list" where
  "splitOn c [] = [[]]"
| "splitOn c (x # xs) =
     (if x = c then [] # splitOn c xs
      else case splitOn c xs of [] \<Rightarrow> [[x]] | l # ls \<Rightarrow> (x # l) # ls)"

text \<open>\<^verbatim>\<open>pieces.join(sep)\<close>.\<close>

fun joinWith :: "string \<Rightarrow> string list \<Rightarrow> string" where
  "joinWith sep [] = []"
| "joinWith sep [x] = x"
| "joinWith sep (x # y # ys) = x @ sep @ joinWith sep (y # ys)"

definition newline :: char where
  "newline = CHR 0x0A"

definition apostrophe :: char where
  "apostrophe = CHR 0x27"

definition doubleQuote :: char where
  "doubleQuote = CHR 0x22"

text \<open>
  \<^verbatim>\<open>findLineNumbers\<close>: the zero-based indices of the lines of \<^verbatim>\<open>content\<close> that contain
  \<^verbatim>\<open>pattern\<close>. (A parameter \<^verbatim>\<open>content\<close> of the source is \<open>contents\<close> here, since \<open>content\<close> is
  the field of \<open>FileInfo\<close>.)
\<close>

definition findLineNumbers :: "string \<Rightarrow> string \<Rightarrow> nat list" where
  "findLineNumbers contents pattern =
     (let lines = splitOn newline contents
      in filter (\<lambda>i. includesStr (lines ! i) pattern) [0..<length lines])"

section \<open>Regular expressions\<close>

text \<open>
  The extractors call \<^verbatim>\<open>content.matchAll(/.../g)\<close>. The patterns use literals, character
  classes, sequence, alternation, the greedy quantifiers \<^verbatim>\<open>*\<close>, \<^verbatim>\<open>+\<close>, \<^verbatim>\<open>?\<close> and capturing
  groups that stand outside every quantifier. \<open>rmatch r (s, caps)\<close> lists, in the order
  in which a backtracking matcher tries them, the ways \<open>r\<close> matches a prefix of \<open>s\<close>: each
  is the rest of the input and the captures so far. The head of the list is the match
  that \<^verbatim>\<open>exec\<close> reports. An iteration of \<^verbatim>\<open>*\<close> that consumes nothing is not taken, as in
  ECMAScript.
\<close>

datatype regex =
    Eps
  | Atom "char \<Rightarrow> bool"
  | Seq regex regex
  | Alt regex regex
  | Star regex
  | Group regex

fun rmatch :: "regex \<Rightarrow> string \<times> string list \<Rightarrow> (string \<times> string list) list" where
  "rmatch Eps st = [st]"
| "rmatch (Atom P) st =
     (case fst st of [] \<Rightarrow> [] | x # xs \<Rightarrow> if P x then [(xs, snd st)] else [])"
| "rmatch (Seq a b) st = concat (map (rmatch b) (rmatch a st))"
| "rmatch (Alt a b) st = rmatch a st @ rmatch b st"
| "rmatch (Star a) st =
     concat (map (\<lambda>st'. if length (fst st') < length (fst st) then rmatch (Star a) st' else [])
               (rmatch a st)) @ [st]"
| "rmatch (Group a) st =
     map (\<lambda>st'. (fst st', snd st' @ [take (length (fst st) - length (fst st')) (fst st)]))
       (rmatch a st)"

text \<open>
  One match attempt at the start of \<open>s\<close>: the matched text (\<^verbatim>\<open>match[0]\<close>), the captures
  (\<^verbatim>\<open>match[1]\<close>, \<^verbatim>\<open>match[2]\<close>, ...) and the input after the match.
\<close>

definition exec :: "regex \<Rightarrow> string \<Rightarrow> (string \<times> string list \<times> string) option" where
  "exec r s =
     (case rmatch r (s, []) of
        [] \<Rightarrow> None
      | st # _ \<Rightarrow> Some (take (length s - length (fst st)) s, snd st, fst st))"

text \<open>
  \<^verbatim>\<open>matchAll\<close> with the flag \<^verbatim>\<open>g\<close>: the leftmost match, then the search goes on where the
  match ended (one character further after an empty match).
\<close>

fun matchAll :: "regex \<Rightarrow> string \<Rightarrow> (string \<times> string list) list" where
  "matchAll r s =
     (case exec r s of
        None \<Rightarrow> (case s of [] \<Rightarrow> [] | _ # t \<Rightarrow> matchAll r t)
      | Some (m, caps, rest) \<Rightarrow>
          (m, caps) # (if length rest < length s then matchAll r rest
                       else case s of [] \<Rightarrow> [] | _ # t \<Rightarrow> matchAll r t))"

text \<open>
  \<^verbatim>\<open>match[k]\<close> for \<open>k \<ge> 1\<close>. Every pattern below has its groups outside optional
  parts, so a match always carries all of them.
\<close>

definition capture :: "string \<times> string list \<Rightarrow> nat \<Rightarrow> string" where
  "capture m k = snd m ! (k - 1)"

definition Chr :: "char \<Rightarrow> regex" where
  "Chr c = Atom (\<lambda>x. x = c)"

definition OneOf :: "string \<Rightarrow> regex" where
  "OneOf cs = Atom (\<lambda>x. x \<in> set cs)"

definition NoneOf :: "string \<Rightarrow> regex" where
  "NoneOf cs = Atom (\<lambda>x. x \<notin> set cs)"

definition Plus :: "regex \<Rightarrow> regex" where
  "Plus r = Seq r (Star r)"

definition Opt :: "regex \<Rightarrow> regex" where
  "Opt r = Alt r Eps"

definition Seqs :: "regex list \<Rightarrow> regex" where
  "Seqs rs = foldr Seq rs Eps"

definition Str :: "string \<Rightarrow> regex" where
  "Str s = Seqs (map Chr s)"

text \<open>\<^verbatim>\<open>\s\<close> (tab, line feed, vertical tab, form feed, carriage return, space, no-break space).\<close>

definition whitespace :: string where
  "whitespace = [CHR 0x09, CHR 0x0A, CHR 0x0B, CHR 0x0C, CHR 0x0D, CHR 0x20, CHR 0xA0]"

text \<open>\<^verbatim>\<open>[\w$]\<close>.\<close>

definition wordOrDollar :: string where
  "wordOrDollar =
     ''abcdefghijklmnopqrstuvwxyzABCDEFGHIJKLMNOPQRSTUVWXYZ0123456789_$''"

definition quotes :: string where
  "quotes = [apostrophe, doubleQuote]"

text \<open>\<^verbatim>\<open>(?:\{[^}]*\}|\*|[\w$]+)\<close> and \<^verbatim>\<open>(?:\s+as\s+[\w$]+)?\<close>, the parts of an import clause.\<close>

definition binding :: regex where
  "binding =
     Alt (Seqs [Chr (CHR ''{''), Star (NoneOf ''}''), Chr (CHR ''}'')])
       (Alt (Chr (CHR ''*'')) (Plus (OneOf wordOrDollar)))"

definition asClause :: regex where
  "asClause =
     Opt (Seqs [Plus (OneOf whitespace), Str ''as'', Plus (OneOf whitespace),
                Plus (OneOf wordOrDollar)])"

text \<open>The four patterns of \<^verbatim>\<open>extractJavaScriptDependencies\<close>.\<close>

definition importPattern :: regex where
  "importPattern =
     Seqs [Str ''import'', Plus (OneOf whitespace),
           Opt (Seqs [binding, asClause]),
           Opt (Seqs [Star (OneOf whitespace), Chr (CHR '',''), Star (OneOf whitespace),
                      binding, asClause]),
           Opt (Seqs [Star (OneOf whitespace), Chr (CHR '',''), Star (OneOf whitespace),
                      binding, asClause]),
           Opt (Seqs [Plus (OneOf whitespace), Str ''from'']),
           Plus (OneOf whitespace),
           OneOf quotes, Group (Plus (NoneOf quotes)), OneOf quotes]"

definition requirePattern :: regex where
  "requirePattern =
     Seqs [Alt (Str ''const'') (Alt (Str ''let'') (Str ''var'')),
           Plus (OneOf whitespace),
           Alt (Plus (OneOf wordOrDollar))
               (Seqs [Chr (CHR ''{''), Star (NoneOf ''}''), Chr (CHR ''}'')]),
           Star (OneOf whitespace), Chr (CHR ''=''), Star (OneOf whitespace),
           Str ''require('', Star (OneOf whitespace),
           OneOf quotes, Group (Plus (NoneOf quotes)), OneOf quotes,
           Star (OneOf whitespace), Chr (CHR '')'')]"

definition dynamicImportPattern :: regex where
  "dynamicImportPattern =
     Seqs [Str ''import('', Star (OneOf whitespace),
           OneOf quotes, Group (Plus (NoneOf quotes)), OneOf quotes,
           Star (OneOf whitespace), Chr (CHR '')'')]"

definition referencePattern :: regex where
  "referencePattern =
     Seqs [Str ''///'', Star (OneOf whitespace), Str ''<reference'', Plus (OneOf whitespace),
           Str ''path'', Star (OneOf whitespace), Chr (CHR ''=''), Star (OneOf whitespace),
           OneOf quotes, Group (Plus (NoneOf quotes)), OneOf quotes,
           Star (OneOf whitespace), Str ''/>'']"

text \<open>
  The patterns of \<^verbatim>\<open>extractHTMLDependencies\<close>, all of one shape:
  \<^verbatim>\<open><tag[^>]*attr=["']([^"']+)["'][^>]*>\<close>.
\<close>

definition tagPattern :: "string \<Rightarrow> string \<Rightarrow> regex" where
  "tagPattern tag attr =
     Seqs [Str (CHR ''<'' # tag), Star (NoneOf ''>''), Str (attr @ ''=''),
           OneOf quotes, Group (Plus (NoneOf quotes)), OneOf quotes,
           Star (NoneOf ''>''), Chr (CHR ''>'')]"

definition scriptPattern :: regex where
  "scriptPattern = tagPattern ''script'' ''src''"

definition linkTagPattern :: regex where
  "linkTagPattern = tagPattern ''link'' ''href''"

definition imgPattern :: regex where
  "imgPattern = tagPattern ''img'' ''src''"

text \<open>
  The patterns of \<^verbatim>\<open>extractCSSDependencies\<close>: \<^verbatim>\<open>@import\s+(?:url\()?["']([^"']+)["'](?:\))?\<close>
  and \<^verbatim>\<open>url\(["']?([^"')]+)["']?\)\<close>.
\<close>

definition cssImportPattern :: regex where
  "cssImportPattern =
     Seqs [Str ''@import'', Plus (OneOf whitespace), Opt (Str ''url(''),
           OneOf quotes, Group (Plus (NoneOf quotes)), OneOf quotes,
           Opt (Chr (CHR '')''))]"

definition cssUrlPattern :: regex where
  "cssUrlPattern =
     Seqs [Str ''url('', Opt (OneOf quotes),
           Group (Plus (NoneOf (quotes @ '')''))), Opt (OneOf quotes), Chr (CHR '')'')]"

text \<open>
  The patterns of \<^verbatim>\<open>extractMarkdownDependencies\<close>: \<^verbatim>\<open>!\[([^\]]*)\]\(([^)]+)\)\<close> and
  \<^verbatim>\<open>\[([^\]]+)\]\(([^)]+)\)\<close>.
\<close>

definition mdImagePattern :: regex where
  "mdImagePattern =
     Seqs [Str ''!['', Group (Star (NoneOf '']'')), Str ''](''  , Group (Plus (NoneOf '')'')),
           Chr (CHR '')'')]"

definition mdLinkPattern :: regex where
  "mdLinkPattern =
     Seqs [Chr (CHR ''[''), Group (Plus (NoneOf '']'')), Str ''](''  , Group (Plus (NoneOf '')'')),
           Chr (CHR '')'')]"

text \<open>
  A pattern that cannot start with a character of the class \<open>P\<close>: used to show that a
  greedy run of the class followed by such a pattern has one way to match.
\<close>

definition rejects :: "(char \<Rightarrow> bool) \<Rightarrow> regex \<Rightarrow> bool" where
  "rejects P r \<longleftrightarrow> (\<forall>x xs caps. P x \<longrightarrow> rmatch r (x # xs, caps) = [])"

text \<open>
  What the two markdown patterns match at the start of a string: the opener (\<^verbatim>\<open>![\<close> for an
  image, \<^verbatim>\<open>[\<close> for a link), a label up to the first \<^verbatim>\<open>]\<close> (not empty for a link), the two
  characters \<^verbatim>\<open>](\<close>, a target up to the first \<^verbatim>\<open>)\<close>, not empty, and that \<^verbatim>\<open>)\<close>.
  \<open>referenceAt\<close> gives the label, the target and what follows the match. It is used in the
  proofs only, where \<open>rmatch\<close> on the two patterns is shown to compute it.
\<close>

definition referenceAt :: "string \<Rightarrow> bool \<Rightarrow> string \<Rightarrow> (string \<times> string \<times> string) option" where
  "referenceAt opener labelled s =
     (let label = takeWhile (\<lambda>x. x \<noteq> CHR '']'') (drop (length opener) s);
          d = dropWhile (\<lambda>x. x \<noteq> CHR '']'') (drop (length opener) s);
          tgt = takeWhile (\<lambda>x. x \<noteq> CHR '')'') (drop 2 d);
          e = dropWhile (\<lambda>x. x \<noteq> CHR '')'') (drop 2 d)
      in if prefix opener s \<and> (labelled \<longrightarrow> label \<noteq> []) \<and> prefix ''](''  d \<and> tgt \<noteq> [] \<and> e \<noteq> []
         then Some (label, tgt, tl e) else None)"

text \<open>
  A string that begins a link, or an image, whose target is not closed within the string:
  \<^verbatim>\<open>[label](\<close>, or \<^verbatim>\<open>![label](\<close>, and no \<^verbatim>\<open>)\<close> after it. A match of the pattern that begins
  there takes its target from what comes after the string.
\<close>

definition linkOpens :: "string \<Rightarrow> bool" where
  "linkOpens s \<longleftrightarrow>
     (let label = takeWhile (\<lambda>x. x \<noteq> CHR '']'') (drop 1 s);
          d = dropWhile (\<lambda>x. x \<noteq> CHR '']'') (drop 1 s)
      in prefix ''['' s \<and> label \<noteq> [] \<and> prefix ''](''  d \<and> CHR '')'' \<notin> set (drop 2 d))"

definition imageOpens :: "string \<Rightarrow> bool" where
  "imageOpens s \<longleftrightarrow>
     (let d = dropWhile (\<lambda>x. x \<noteq> CHR '']'') (drop 2 s)
      in prefix ''!['' s \<and> prefix ''](''  d \<and> CHR '')'' \<notin> set (drop 2 d))"

text \<open>
  \<open>openBefore r opens s\<close> reads \<open>s\<close> as \<open>matchAll r\<close> does, from one match to the position
  after it and from a position without a match to the next one, and tells whether a
  position it tries without a match begins an unclosed target. When it is false, no match
  of \<open>r\<close> in a longer text begins within \<open>s\<close> and takes its target from beyond \<open>s\<close>.
\<close>

fun openBefore :: "regex \<Rightarrow> (string \<Rightarrow> bool) \<Rightarrow> string \<Rightarrow> bool" where
  "openBefore r opens s =
     (case s of
        [] \<Rightarrow> False
      | c # t \<Rightarrow>
          (case exec r s of
             None \<Rightarrow> opens s \<or> openBefore r opens t
           | Some (m, caps, rest) \<Rightarrow>
               if length rest < length s then openBefore r opens rest
               else openBefore r opens t))"

section \<open>The runtime: path module, file system, JSON\<close>

text \<open>
  The functions of Node's \<^verbatim>\<open>path\<close> module that \<^verbatim>\<open>resolveImportPath\<close> calls, in the POSIX
  flavour. They belong to the runtime, not to the repository; the definitions follow the
  algorithms of the module. \<open>normalizeSegments\<close> is its \<^verbatim>\<open>normalizeString\<close> on the pieces
  between slashes: empty pieces and \<^verbatim>\<open>.\<close> are dropped, \<^verbatim>\<open>..\<close> removes the piece before it
  when there is one that is not \<^verbatim>\<open>..\<close> itself.
\<close>

fun normalizeSegments :: "bool \<Rightarrow> string list \<Rightarrow> string list \<Rightarrow> string list" where
  "normalizeSegments allowAboveRoot [] res = res"
| "normalizeSegments allowAboveRoot (seg # segs) res =
     (if seg = [] \<or> seg = ''.'' then normalizeSegments allowAboveRoot segs res
      else if seg = ''..'' then
        (if res \<noteq> [] \<and> last res \<noteq> ''..''
         then normalizeSegments allowAboveRoot segs (butlast res)
         else if allowAboveRoot then normalizeSegments allowAboveRoot segs (res @ [''..''])
         else normalizeSegments allowAboveRoot segs res)
      else normalizeSegments allowAboveRoot segs (res @ [seg]))"

definition normalizeString :: "string \<Rightarrow> bool \<Rightarrow> string" where
  "normalizeString p allowAboveRoot =
     joinWith ''/'' (normalizeSegments allowAboveRoot (splitOn (CHR ''/'') p) [])"

text \<open>
  \<^verbatim>\<open>path.resolve(...args)\<close>: the arguments are taken from the right, then the working
  directory, until an absolute one has been prepended.
\<close>

fun resolveArgs :: "string list \<Rightarrow> string \<Rightarrow> string \<times> bool" where
  "resolveArgs [] resolvedPath = (resolvedPath, False)"
| "resolveArgs (p # ps) resolvedPath =
     (if p = [] then resolveArgs ps resolvedPath
      else if hd p = CHR ''/'' then (p @ ''/'' @ resolvedPath, True)
      else resolveArgs ps (p @ ''/'' @ resolvedPath))"

definition path_resolve :: "string \<Rightarrow> string list \<Rightarrow> string" where
  "path_resolve workingDir args =
     (let (resolvedPath, resolvedAbsolute) = resolveArgs (rev args @ [workingDir]) [];
          normalized = normalizeString resolvedPath (\<not> resolvedAbsolute)
      in if resolvedAbsolute then CHR ''/'' # normalized
         else if normalized \<noteq> [] then normalized else ''.'')"

definition path_normalize :: "string \<Rightarrow> string" where
  "path_normalize p =
     (if p = [] then ''.''
      else
        let isAbsolute = (hd p = CHR ''/'');
            trailingSeparator = (last p = CHR ''/'');
            normalized = normalizeString p (\<not> isAbsolute)
        in if normalized = []
           then (if isAbsolute then ''/'' else if trailingSeparator then ''./'' else ''.'')
           else
             let normalized' = (if trailingSeparator then normalized @ ''/'' else normalized)
             in if isAbsolute then CHR ''/'' # normalized' else normalized')"

definition path_join :: "string list \<Rightarrow> string" where
  "path_join args =
     (let joined = joinWith ''/'' (filter (\<lambda>a. a \<noteq> []) args)
      in if joined = [] then ''.'' else path_normalize joined)"

text \<open>
  \<^verbatim>\<open>path.dirname\<close>: \<open>dirnameEnd p i True\<close> scans the indices \<open>i, i - 1, ..., 1\<close> for the
  first slash that has a character other than a slash to its right.
\<close>

fun dirnameEnd :: "string \<Rightarrow> nat \<Rightarrow> bool \<Rightarrow> nat option" where
  "dirnameEnd p 0 matchedSlash = None"
| "dirnameEnd p (Suc i) matchedSlash =
     (if p ! Suc i = CHR ''/''
      then (if \<not> matchedSlash then Some (Suc i) else dirnameEnd p i matchedSlash)
      else dirnameEnd p i False)"

definition path_dirname :: "string \<Rightarrow> string" where
  "path_dirname p =
     (if p = [] then ''.''
      else case dirnameEnd p (length p - 1) True of
          None \<Rightarrow> (if hd p = CHR ''/'' then ''/'' else ''.'')
        | Some e \<Rightarrow> (if hd p = CHR ''/'' \<and> e = 1 then ''//'' else take e p))"

text \<open>
  \<^verbatim>\<open>path.extname\<close>: in the last component of the path (trailing slashes apart), the text
  from the last dot on; empty when there is no dot, when the last dot is the first
  character of the component, and when the component is \<^verbatim>\<open>..\<close>.
\<close>

definition lastComponent :: "string \<Rightarrow> string" where
  "lastComponent p =
     rev (takeWhile (\<lambda>c. c \<noteq> CHR ''/'') (dropWhile (\<lambda>c. c = CHR ''/'') (rev p)))"

definition path_extname :: "string \<Rightarrow> string" where
  "path_extname p =
     (let base = lastComponent p;
          ext = rev (takeWhile (\<lambda>c. c \<noteq> CHR ''.'') (rev base))
      in if CHR ''.'' \<notin> set base \<or> length ext + 1 = length base \<or> base = ''..'' then []
         else CHR ''.'' # ext)"

text \<open>What the runtime throws, and what \<^verbatim>\<open>JSON.parse\<close> returns.\<close>

datatype error = SyntaxError | TypeError | FsError string

text \<open>
  A parsed JSON value. An object is the list of its entries in the order of
  \<^verbatim>\<open>Object.entries\<close>, with distinct keys. A number is the value of the double;
  the analyzer only tests it against zero.
\<close>

datatype json =
    JNull
  | JBool bool
  | JNumber rat
  | JString string
  | JArray "json list"
  | JObject "(string \<times> json) list"

text \<open>
  The world outside the analyzer: \<^verbatim>\<open>fs.readFile\<close> (it rejects with an error, or gives the
  content), \<^verbatim>\<open>fs.existsSync\<close>, \<^verbatim>\<open>process.cwd()\<close> and \<^verbatim>\<open>JSON.parse\<close> (it throws, or gives the
  value). The file system may differ from one call of the analyzer to the next, so every
  operation takes the world of its call.
\<close>

record World =
  readFile :: "string \<Rightarrow> error + string"
  existsSync :: "string \<Rightarrow> bool"
  cwd :: string
  JSON_parse :: "string \<Rightarrow> error + json"

text \<open>
  The effects of a call that the theorems are about: reading a file's content, writing an
  entry of the cache, and \<^verbatim>\<open>console.error\<close>.
\<close>

datatype event = ReadFile string | CacheSet string | ConsoleError string error

text \<open>
  The fields of a \<^verbatim>\<open>DependencyManager\<close> (the list \<^verbatim>\<open>externalPackagePatterns\<close> is never
  assigned after its initialisation and is a constant below), with the trace of the
  effects so far.
\<close>

record Manager =
  workspaceRoot :: "string option"
  dependencyCache :: "string \<rightharpoonup> Dependency list"
  trace :: "event list"

section \<open>Path resolver\<close>

definition extensions :: "string list" where
  "extensions = [''.js'', ''.jsx'', ''.ts'', ''.tsx'', ''.json'', ''.css'', ''.scss'', ''.html'', ''.md'']"

text \<open>The two loops of \<^verbatim>\<open>resolveImportPath\<close>; each returns at the first candidate that exists.\<close>

fun tryExtensions :: "World \<Rightarrow> string \<Rightarrow> string list \<Rightarrow> string option" where
  "tryExtensions w resolvedPath [] = None"
| "tryExtensions w resolvedPath (ext # exts) =
     (let pathWithExt = resolvedPath @ ext
      in if existsSync w pathWithExt then Some pathWithExt
         else tryExtensions w resolvedPath exts)"

fun tryIndexFiles :: "World \<Rightarrow> string \<Rightarrow> string list \<Rightarrow> string option" where
  "tryIndexFiles w resolvedPath [] = None"
| "tryIndexFiles w resolvedPath (ext # exts) =
     (let indexPath = path_join [resolvedPath, ''index'' @ ext]
      in if existsSync w indexPath then Some indexPath
         else tryIndexFiles w resolvedPath exts)"

text \<open>
  \<^verbatim>\<open>resolveImportPath\<close>; \<open>wsRoot\<close> is \<^verbatim>\<open>this.workspaceRoot\<close>, which counts as absent when it is
  the empty string.
\<close>

definition resolveImportPath :: "World \<Rightarrow> string option \<Rightarrow> string \<Rightarrow> string \<Rightarrow> string" where
  "resolveImportPath w wsRoot sourcePath importPath =
     (if startsWith importPath ''/'' \<or> startsWith importPath ''http'' then
        (case wsRoot of
           Some r \<Rightarrow>
             if startsWith importPath ''/'' \<and> r \<noteq> [] then path_join [r, importPath]
             else importPath
         | None \<Rightarrow> importPath)
      else
        let sourceDir = path_dirname sourcePath;
            resolvedPath = path_resolve (cwd w) [sourceDir, importPath]
        in if path_extname resolvedPath = [] then
             (case tryExtensions w resolvedPath extensions of
                Some pathWithExt \<Rightarrow> pathWithExt
              | None \<Rightarrow>
                  (case tryIndexFiles w resolvedPath extensions of
                     Some indexPath \<Rightarrow> indexPath
                   | None \<Rightarrow> resolvedPath))
           else resolvedPath)"

section \<open>External references\<close>

definition externalPackagePatterns :: "string list" where
  "externalPackagePatterns =
     [''node_modules'', ''https://cdn'', ''http://cdn'', ''https://unpkg.com'',
      ''https://jsdelivr.com'']"

text \<open>The loop of \<^verbatim>\<open>isExternalDependency\<close> over the patterns.\<close>

fun includesAny :: "string \<Rightarrow> string list \<Rightarrow> bool" where
  "includesAny importPath [] = False"
| "includesAny importPath (pattern # patterns) =
     (if includesStr importPath pattern then True else includesAny importPath patterns)"

definition isExternalDependency :: "string \<Rightarrow> bool" where
  "isExternalDependency importPath =
     (if includesAny importPath externalPackagePatterns then True
      else if startsWith importPath ''.'' \<or> startsWith importPath ''/'' then False
      else True)"

definition shouldProcessExternalDependency :: "string \<Rightarrow> bool" where
  "shouldProcessExternalDependency p = False"

section \<open>Dependency extractor\<close>

text \<open>
  Every loop of the extractors has one shape: for each match, either \<^verbatim>\<open>continue\<close> or push
  one record onto \<^verbatim>\<open>dependencies\<close>. \<open>forEachMatch body\<close> is that loop, where \<open>body\<close> gives
  \<open>None\<close> for \<^verbatim>\<open>continue\<close> and the record otherwise.
\<close>

fun forEachMatch ::
    "(string \<times> string list \<Rightarrow> Dependency option) \<Rightarrow> (string \<times> string list) list
       \<Rightarrow> Dependency list \<Rightarrow> Dependency list" where
  "forEachMatch body [] dependencies = dependencies"
| "forEachMatch body (m # ms) dependencies =
     (case body m of
        None \<Rightarrow> forEachMatch body ms dependencies
      | Some d \<Rightarrow> forEachMatch body ms (dependencies @ [d]))"

text \<open>\<^verbatim>\<open>extractJavaScriptDependencies\<close>: the loop over the imports, then the one over the references.\<close>

definition importBody ::
    "World \<Rightarrow> string option \<Rightarrow> string \<Rightarrow> string \<Rightarrow> string \<times> string list \<Rightarrow> Dependency option" where
  "importBody w wsRoot filePath contents m =
     (let importPath = capture m 1;
          isExt = isExternalDependency importPath
      in if isExt \<and> \<not> shouldProcessExternalDependency importPath then None
         else Some \<lparr>source = filePath,
                    target = resolveImportPath w wsRoot filePath importPath,
                    dtype = Import,
                    lineNumbers = Some (findLineNumbers contents (fst m)),
                    isExternal = isExt\<rparr>)"

definition referenceBody ::
    "World \<Rightarrow> string option \<Rightarrow> string \<Rightarrow> string \<Rightarrow> string \<times> string list \<Rightarrow> Dependency option" where
  "referenceBody w wsRoot filePath contents m =
     (let referencePath = capture m 1
      in Some \<lparr>source = filePath,
                target = resolveImportPath w wsRoot filePath referencePath,
                dtype = Reference,
                lineNumbers = Some (findLineNumbers contents (fst m)),
                isExternal = False\<rparr>)"

definition extractJavaScriptDependencies ::
    "World \<Rightarrow> string option \<Rightarrow> string \<Rightarrow> string \<Rightarrow> Dependency list \<Rightarrow> Dependency list" where
  "extractJavaScriptDependencies w wsRoot filePath contents dependencies =
     (let importMatches = matchAll importPattern contents;
          requireMatches = matchAll requirePattern contents;
          dynamicImportMatches = matchAll dynamicImportPattern contents;
          referenceMatches = matchAll referencePattern contents
      in forEachMatch (referenceBody w wsRoot filePath contents) referenceMatches
           (forEachMatch (importBody w wsRoot filePath contents)
              (importMatches @ requireMatches @ dynamicImportMatches) dependencies))"

text \<open>
  \<^verbatim>\<open>extractHTMLDependencies\<close>: three loops with the same body, over the script, link and
  image tags.
\<close>

definition htmlBody ::
    "World \<Rightarrow> string option \<Rightarrow> string \<Rightarrow> string \<Rightarrow> string \<times> string list \<Rightarrow> Dependency option" where
  "htmlBody w wsRoot filePath contents m =
     (let src = capture m 1
      in if startsWith src ''data:''
            \<or> (startsWith src ''http'' \<and> \<not> shouldProcessExternalDependency src) then None
         else Some \<lparr>source = filePath,
                    target = resolveImportPath w wsRoot filePath src,
                    dtype = HtmlLink,
                    lineNumbers = Some (findLineNumbers contents (fst m)),
                    isExternal = isExternalDependency src\<rparr>)"

definition extractHTMLDependencies ::
    "World \<Rightarrow> string option \<Rightarrow> string \<Rightarrow> string \<Rightarrow> Dependency list \<Rightarrow> Dependency list" where
  "extractHTMLDependencies w wsRoot filePath contents dependencies =
     (let scriptMatches = matchAll scriptPattern contents;
          linkMatches = matchAll linkTagPattern contents;
          imgMatches = matchAll imgPattern contents
      in forEachMatch (htmlBody w wsRoot filePath contents) imgMatches
           (forEachMatch (htmlBody w wsRoot filePath contents) linkMatches
              (forEachMatch (htmlBody w wsRoot filePath contents) scriptMatches dependencies)))"

text \<open>\<^verbatim>\<open>extractCSSDependencies\<close>: the loop over \<^verbatim>\<open>@import\<close>, then the one over \<^verbatim>\<open>url()\<close>.\<close>

definition cssImportBody ::
    "World \<Rightarrow> string option \<Rightarrow> string \<Rightarrow> string \<Rightarrow> string \<times> string list \<Rightarrow> Dependency option" where
  "cssImportBody w wsRoot filePath contents m =
     (let importPath = capture m 1
      in if (startsWith importPath ''http'' \<and> \<not> shouldProcessExternalDependency importPath)
            \<or> startsWith importPath ''data:'' then None
         else Some \<lparr>source = filePath,
                    target = resolveImportPath w wsRoot filePath importPath,
                    dtype = StyleImport,
                    lineNumbers = Some (findLineNumbers contents (fst m)),
                    isExternal = isExternalDependency importPath\<rparr>)"

definition cssUrlBody ::
    "World \<Rightarrow> string option \<Rightarrow> string \<Rightarrow> string \<Rightarrow> string \<times> string list \<Rightarrow> Dependency option" where
  "cssUrlBody w wsRoot filePath contents m =
     (let urlPath = capture m 1
      in if startsWith urlPath ''http'' \<or> startsWith urlPath ''data:''
            \<or> startsWith urlPath ''#'' then None
         else Some \<lparr>source = filePath,
                    target = resolveImportPath w wsRoot filePath urlPath,
                    dtype = StyleImport,
                    lineNumbers = Some (findLineNumbers contents (fst m)),
                    isExternal = isExternalDependency urlPath\<rparr>)"

definition extractCSSDependencies ::
    "World \<Rightarrow> string option \<Rightarrow> string \<Rightarrow> string \<Rightarrow> Dependency list \<Rightarrow> Dependency list" where
  "extractCSSDependencies w wsRoot filePath contents dependencies =
     (let importMatches = matchAll cssImportPattern contents;
          urlMatches = matchAll cssUrlPattern contents
      in forEachMatch (cssUrlBody w wsRoot filePath contents) urlMatches
           (forEachMatch (cssImportBody w wsRoot filePath contents) importMatches dependencies))"

text \<open>\<^verbatim>\<open>extractMarkdownDependencies\<close>: the loop over the images, then the one over the links.\<close>

definition mdImageBody ::
    "World \<Rightarrow> string option \<Rightarrow> string \<Rightarrow> string \<Rightarrow> string \<times> string list \<Rightarrow> Dependency option" where
  "mdImageBody w wsRoot filePath contents m =
     (let imagePath = capture m 2
      in if startsWith imagePath ''http'' then None
         else Some \<lparr>source = filePath,
                    target = resolveImportPath w wsRoot filePath imagePath,
                    dtype = Reference,
                    lineNumbers = Some (findLineNumbers contents (fst m)),
                    isExternal = False\<rparr>)"

definition mdLinkBody ::
    "World \<Rightarrow> string option \<Rightarrow> string \<Rightarrow> string \<Rightarrow> string \<times> string list \<Rightarrow> Dependency option" where
  "mdLinkBody w wsRoot filePath contents m =
     (let linkPath = capture m 2
      in if startsWith linkPath ''http'' \<or> startsWith linkPath ''#''
            \<or> includesStr linkPath ''@'' then None
         else Some \<lparr>source = filePath,
                    target = resolveImportPath w wsRoot filePath linkPath,
                    dtype = Reference,
                    lineNumbers = Some (findLineNumbers contents (fst m)),
                    isExternal = False\<rparr>)"

definition extractMarkdownDependencies ::
    "World \<Rightarrow> string option \<Rightarrow> string \<Rightarrow> string \<Rightarrow> Dependency list \<Rightarrow> Dependency list" where
  "extractMarkdownDependencies w wsRoot filePath contents dependencies =
     (let imageMatches = matchAll mdImagePattern contents;
          linkMatches = matchAll mdLinkPattern contents
      in forEachMatch (mdLinkBody w wsRoot filePath contents) linkMatches
           (forEachMatch (mdImageBody w wsRoot filePath contents) imageMatches dependencies))"

text \<open>
  \<^verbatim>\<open>extractJSONDependencies\<close>. \<open>getProperty v k\<close> is \<^verbatim>\<open>v[k]\<close> for the four section names
  (none of them an index, \<^verbatim>\<open>length\<close> or a property of a prototype): reading a property of
  \<^verbatim>\<open>null\<close> throws, a value that is not an object has none of them. \<open>truthy\<close> is the test
  of \<^verbatim>\<open>if (v)\<close>, and \<open>entryKeys v\<close> the keys of \<^verbatim>\<open>Object.entries(v)\<close>: the keys of an object,
  the indices of an array or of a string, nothing for a number or a boolean.
\<close>

fun getProperty :: "json \<Rightarrow> string \<Rightarrow> error + json option" where
  "getProperty JNull k = Inl TypeError"
| "getProperty (JObject entries) k = Inr (map_of entries k)"
| "getProperty v k = Inr None"

fun truthy :: "json \<Rightarrow> bool" where
  "truthy JNull = False"
| "truthy (JBool b) = b"
| "truthy (JNumber n) = (n \<noteq> 0)"
| "truthy (JString s) = (s \<noteq> [])"
| "truthy (JArray xs) = True"
| "truthy (JObject entries) = True"

fun showNat :: "nat \<Rightarrow> string" where
  "showNat n =
     (if n < 10 then [char_of (48 + n)] else showNat (n div 10) @ [char_of (48 + n mod 10)])"

fun entryKeys :: "json \<Rightarrow> string list" where
  "entryKeys (JObject entries) = map fst entries"
| "entryKeys (JArray xs) = map showNat [0..<length xs]"
| "entryKeys (JString s) = map showNat [0..<length s]"
| "entryKeys v = []"

definition dependencySections :: "string list" where
  "dependencySections =
     [''dependencies'', ''devDependencies'', ''peerDependencies'', ''optionalDependencies'']"

text \<open>The inner loop: one record for each entry of a section.\<close>

fun pushPackages :: "string \<Rightarrow> string list \<Rightarrow> Dependency list \<Rightarrow> Dependency list" where
  "pushPackages filePath [] dependencies = dependencies"
| "pushPackages filePath (pkg # pkgs) dependencies =
     pushPackages filePath pkgs
       (dependencies @
          [\<lparr>source = filePath, target = ''node_modules/'' @ pkg, dtype = Import,
            lineNumbers = None, isExternal = True\<rparr>])"

text \<open>
  The loop over the sections, inside the \<^verbatim>\<open>try\<close>. The array \<^verbatim>\<open>dependencies\<close> is mutated
  in place, so what was pushed before an exception stays: the result is the array and
  the exception thrown, if any.
\<close>

fun sectionsLoop ::
    "string \<Rightarrow> json \<Rightarrow> string list \<Rightarrow> Dependency list \<Rightarrow> Dependency list \<times> error option" where
  "sectionsLoop filePath packageJson [] dependencies = (dependencies, None)"
| "sectionsLoop filePath packageJson (section # sections) dependencies =
     (case getProperty packageJson section of
        Inl e \<Rightarrow> (dependencies, Some e)
      | Inr None \<Rightarrow> sectionsLoop filePath packageJson sections dependencies
      | Inr (Some v) \<Rightarrow>
          if truthy v
          then sectionsLoop filePath packageJson sections
                 (pushPackages filePath (entryKeys v) dependencies)
          else sectionsLoop filePath packageJson sections dependencies)"

text \<open>The function returns the array and what it wrote with \<^verbatim>\<open>console.error\<close>.\<close>

definition extractJSONDependencies ::
    "World \<Rightarrow> string \<Rightarrow> string \<Rightarrow> Dependency list \<Rightarrow> Dependency list \<times> event list" where
  "extractJSONDependencies w filePath contents dependencies =
     (if \<not> endsWith filePath ''package.json'' then (dependencies, [])
      else case JSON_parse w contents of
          Inl e \<Rightarrow> (dependencies, [ConsoleError (''Error parsing JSON in '' @ filePath @ '':'') e])
        | Inr packageJson \<Rightarrow>
            (case sectionsLoop filePath packageJson dependencySections dependencies of
               (dependencies', Some e) \<Rightarrow>
                 (dependencies', [ConsoleError (''Error parsing JSON in '' @ filePath @ '':'') e])
             | (dependencies', None) \<Rightarrow> (dependencies', [])))"

section \<open>Analysis of one file, with the cache\<close>

definition binaryExtensions :: "string list" where
  "binaryExtensions =
     [''.pdf'', ''.zip'', ''.gz'', ''.tar'',
      ''.exe'', ''.dll'', ''.so'', ''.dylib'',
      ''.jpg'', ''.jpeg'', ''.png'', ''.gif'', ''.svg'', ''.ico'',
      ''.mp3'', ''.mp4'', ''.wav'', ''.avi'', ''.mkv'',
      ''.doc'', ''.docx'', ''.xls'', ''.xlsx'', ''.ppt'', ''.pptx'']"

definition isBinaryFile :: "FileInfo \<Rightarrow> bool" where
  "isBinaryFile file =
     (if type file = Image then True else extension file \<in> set binaryExtensions)"

text \<open>\<^verbatim>\<open>this.dependencyCache.set(file.path, dependencies)\<close>, with its entry in the trace.\<close>

definition cacheSet :: "string \<Rightarrow> Dependency list \<Rightarrow> Manager \<Rightarrow> Manager" where
  "cacheSet p dependencies this =
     this\<lparr>dependencyCache := (dependencyCache this)(p \<mapsto> dependencies),
          trace := trace this @ [CacheSet p]\<rparr>"

definition logged :: "event list \<Rightarrow> Manager \<Rightarrow> Manager" where
  "logged events this = this\<lparr>trace := trace this @ events\<rparr>"

text \<open>
  The \<^verbatim>\<open>switch\<close> of \<^verbatim>\<open>analyzeDependencies\<close> on the type of the file, started on the empty
  array.
\<close>

definition extractByType ::
    "World \<Rightarrow> string option \<Rightarrow> FileInfo \<Rightarrow> string \<Rightarrow> Dependency list \<times> event list" where
  "extractByType w wsRoot file contents =
     (case type file of
        JavaScript \<Rightarrow> (extractJavaScriptDependencies w wsRoot (path file) contents [], [])
      | TypeScript \<Rightarrow> (extractJavaScriptDependencies w wsRoot (path file) contents [], [])
      | HTML \<Rightarrow> (extractHTMLDependencies w wsRoot (path file) contents [], [])
      | CSS \<Rightarrow> (extractCSSDependencies w wsRoot (path file) contents [], [])
      | JSON \<Rightarrow> extractJSONDependencies w (path file) contents []
      | Markdown \<Rightarrow> (extractMarkdownDependencies w wsRoot (path file) contents [], [])
      | _ \<Rightarrow> ([], []))"

text \<open>
  The block "Load content if not already loaded": the content of the descriptor when it
  has one that is not the empty string (\<^verbatim>\<open>if (file.content)\<close>), else what \<^verbatim>\<open>readFile\<close>
  gives, with the read in the trace.
\<close>

definition loadContent :: "World \<Rightarrow> FileInfo \<Rightarrow> (error + string) \<times> event list" where
  "loadContent w file =
     (case content file of
        Some c \<Rightarrow>
          if c \<noteq> [] then (Inr c, [])
          else (readFile w (path file), [ReadFile (path file)])
      | None \<Rightarrow> (readFile w (path file), [ReadFile (path file)]))"

text \<open>
  \<^verbatim>\<open>analyzeDependencies\<close>: the list returned and the manager afterwards. The rejection
  of \<^verbatim>\<open>readFile\<close> is caught by the \<^verbatim>\<open>catch\<close> around it, which logs, stores the empty list
  and returns it.
\<close>

definition analyzeDependencies ::
    "World \<Rightarrow> FileInfo \<Rightarrow> Manager \<Rightarrow> Dependency list \<times> Manager" where
  "analyzeDependencies w file this =
     (case dependencyCache this (path file) of
        Some cached \<Rightarrow> (cached, this)
      | None \<Rightarrow>
          if size_bytes file > 1024 * 1024 \<or> isBinaryFile file
          then ([], cacheSet (path file) [] this)
          else
            (case loadContent w file of
               (Inl e, reads) \<Rightarrow>
                 ([], cacheSet (path file) []
                        (logged (reads @ [ConsoleError (''Error reading file '' @ path file @ '':'') e])
                           this))
             | (Inr contents, reads) \<Rightarrow>
                 (let (dependencies, events) =
                        extractByType w (workspaceRoot this) file contents
                  in (dependencies,
                      cacheSet (path file) dependencies (logged (reads @ events) this)))))"

section \<open>Graph builder\<close>

text \<open>
  \<^verbatim>\<open>buildDependencyGraph\<close> reads the field \<^verbatim>\<open>allFiles\<close> of the project structure and no
  other. The optional \<^verbatim>\<open>progressCallback\<close> is left out.

  The first loop of \<^verbatim>\<open>buildDependencyGraph\<close>: a node and an empty map of edges for each
  file.
\<close>

fun addNodes :: "FileInfo list \<Rightarrow> DependencyGraph \<Rightarrow> DependencyGraph" where
  "addNodes [] graph = graph"
| "addNodes (file # files) graph =
     addNodes files
       (graph\<lparr>nodes := AList.update (path file) file (nodes graph),
              edges := AList.update (path file) [] (edges graph)\<rparr>)"

text \<open>
  The inner loop: \<^verbatim>\<open>graph.edges.get(file.path)?.set(dep.target, dep)\<close> for each dependency
  whose target is a key of \<^verbatim>\<open>nodes\<close>; nothing happens when \<^verbatim>\<open>edges\<close> has no map for the
  file.
\<close>

fun addEdges :: "string \<Rightarrow> Dependency list \<Rightarrow> DependencyGraph \<Rightarrow> DependencyGraph" where
  "addEdges filePath [] graph = graph"
| "addEdges filePath (dep # deps) graph =
     addEdges filePath deps
       (if map_of (nodes graph) (target dep) \<noteq> None
        then (case map_of (edges graph) filePath of
                None \<Rightarrow> graph
              | Some targets \<Rightarrow>
                  graph\<lparr>edges := AList.update filePath
                                     (AList.update (target dep) dep targets) (edges graph)\<rparr>)
        else graph)"

text \<open>The second loop: the files are analysed one after the other.\<close>

fun processFiles ::
    "World \<Rightarrow> FileInfo list \<Rightarrow> DependencyGraph \<Rightarrow> Manager \<Rightarrow> DependencyGraph \<times> Manager" where
  "processFiles w [] graph this = (graph, this)"
| "processFiles w (file # files) graph this =
     (let (dependencies, this') = analyzeDependencies w file this
      in processFiles w files (addEdges (path file) dependencies graph) this')"

definition buildDependencyGraph ::
    "World \<Rightarrow> ProjectStructure \<Rightarrow> Manager \<Rightarrow> DependencyGraph \<times> Manager" where
  "buildDependencyGraph w projectStructure this =
     processFiles w (allFiles projectStructure)
       (addNodes (allFiles projectStructure) \<lparr>nodes = [], edges = []\<rparr>) this"

text \<open>
  The invariant of the two loops of the builder: every target recorded in \<^verbatim>\<open>edges\<close> is a
  key of \<^verbatim>\<open>nodes\<close> and is the target of the dependency stored under it.
\<close>

definition targetsWithin :: "DependencyGraph \<Rightarrow> bool" where
  "targetsWithin g \<longleftrightarrow>
     (\<forall>(s, targets) \<in> set (edges g). \<forall>(t, dep) \<in> set targets.
        t \<in> fst ` set (nodes g) \<and> target dep = t)"

section \<open>Cycle detector\<close>

text \<open>
  The test \<^verbatim>\<open>isCycleRecorded\<close> of \<^verbatim>\<open>dfsForCycles\<close> for one recorded cycle: equal lengths,
  and some offset \<open>i\<close> at which \<^verbatim>\<open>recordedCycle[j] === cycle[(i + j) % cycle.length]\<close> for
  every \<open>j\<close>.
\<close>

definition sameRotation :: "string list \<Rightarrow> string list \<Rightarrow> bool" where
  "sameRotation recordedCycle cycle =
     (length recordedCycle = length cycle \<and>
      list_ex (\<lambda>i. list_all (\<lambda>j. recordedCycle ! j = cycle ! ((i + j) mod length cycle))
                       [0..<length recordedCycle])
              [0..<length recordedCycle])"

definition isCycleRecorded :: "string list list \<Rightarrow> string list \<Rightarrow> bool" where
  "isCycleRecorded cycles cycle = list_ex (\<lambda>recordedCycle. sameRotation recordedCycle cycle) cycles"

text \<open>\<^verbatim>\<open>path.indexOf(current)\<close>: the first index, \<open>None\<close> for \<^verbatim>\<open>-1\<close>.\<close>

fun indexOf :: "string list \<Rightarrow> string \<Rightarrow> nat option" where
  "indexOf [] x = None"
| "indexOf (y # ys) x = (if y = x then Some 0 else map_option Suc (indexOf ys x))"

text \<open>
  \<^verbatim>\<open>dfsForCycles\<close>. The set \<^verbatim>\<open>visited\<close> and the array \<^verbatim>\<open>cycles\<close> are mutated in place and
  shared by all calls, so they are passed in and returned; \<^verbatim>\<open>path\<close> (here \<open>pth\<close>) is copied
  for each recursive call, so it is an argument only. \<open>dfsTargets\<close> is the loop over the
  outgoing edges of a node.
\<close>

function dfsForCycles ::
    "string \<Rightarrow> DependencyGraph \<Rightarrow> string set \<times> string list list \<Rightarrow> string list
       \<Rightarrow> string set \<times> string list list"
  and dfsTargets ::
    "string list \<Rightarrow> DependencyGraph \<Rightarrow> string set \<times> string list list \<Rightarrow> string list
       \<Rightarrow> string set \<times> string list list"
where
  "dfsForCycles current graph vc pth =
     (if current \<in> fst vc then vc
      else case indexOf pth current of
        Some cycleIndex \<Rightarrow>
          (let cycle = drop cycleIndex pth @ [current]
           in if isCycleRecorded (snd vc) cycle then vc else (fst vc, snd vc @ [cycle]))
      | None \<Rightarrow>
          (let vc' = (case map_of (edges graph) current of
                        None \<Rightarrow> vc
                      | Some dependencies \<Rightarrow>
                          dfsTargets (map fst dependencies) graph vc (pth @ [current]))
           in (insert current (fst vc'), snd vc')))"
| "dfsTargets [] graph vc pth = vc"
| "dfsTargets (t # ts) graph vc pth = dfsTargets ts graph (dfsForCycles t graph vc pth) pth"
  by pat_completeness auto

lemma indexOf_None: "indexOf ys x = None \<longleftrightarrow> x \<notin> set ys"
  by (induction ys) auto

termination dfsForCycles
proof (relation "inv_image (less_than <*lex*> less_than <*lex*> less_than)
    (\<lambda>a. case a of
        Inl (current, graph, vc, pth) \<Rightarrow> (card (fst ` set (edges graph) - set pth), 0, 0)
      | Inr (ts, graph, vc, pth) \<Rightarrow> (card (fst ` set (edges graph) - set pth), 1, length ts))",
    goal_cases)
  case 1
  show ?case by (intro wf_inv_image wf_lex_prod wf_less_than)
next
  case (2 current graph vc pth dependencies)
  from 2(3) have "current \<in> fst ` set (edges graph)"
    by (metis map_of_SomeD fst_conv image_eqI)
  moreover from 2(2) have "current \<notin> set pth"
    by (simp add: indexOf_None)
  ultimately have "fst ` set (edges graph) - set (pth @ [current])
      \<subset> fst ` set (edges graph) - set pth"
    by auto
  then have "card (fst ` set (edges graph) - set (pth @ [current]))
      < card (fst ` set (edges graph) - set pth)"
    by (intro psubset_card_mono) auto
  then show ?case by simp
next
  case 3
  show ?case by simp
next
  case 4
  show ?case by simp
qed

text \<open>
  \<^verbatim>\<open>findCircularDependencies\<close>: one search per key of \<^verbatim>\<open>nodes\<close>, each with a fresh
  \<^verbatim>\<open>visited\<close> set and an empty \<^verbatim>\<open>path\<close>, all of them appending to the same array.
\<close>

fun findFrom :: "string list \<Rightarrow> DependencyGraph \<Rightarrow> string list list \<Rightarrow> string list list" where
  "findFrom [] graph circularDependencies = circularDependencies"
| "findFrom (startNode # rest) graph circularDependencies =
     findFrom rest graph (snd (dfsForCycles startNode graph ({}, circularDependencies) []))"

definition findCircularDependencies :: "DependencyGraph \<Rightarrow> string list list" where
  "findCircularDependencies dependencyGraph =
     findFrom (map fst (nodes dependencyGraph)) dependencyGraph []"

section \<open>Example inputs\<close>

definition fileOf :: "string \<Rightarrow> string \<Rightarrow> FileType \<Rightarrow> string option \<Rightarrow> FileInfo" where
  "fileOf p ext ty c =
     \<lparr>path = p, relativePath = p, name = p, extension = ext, type = ty, size_bytes = 100,
      lastModified = 0, content = c\<rparr>"

text \<open>The project structure of a workspace \<^verbatim>\<open>/p\<close> with the given files at its top.\<close>

definition projectOf :: "FileInfo list \<Rightarrow> ProjectStructure" where
  "projectOf files =
     \<lparr>workspaceRoot_s = ''/p'', rootDirectories = [], rootFiles = files, allFiles = files\<rparr>"

definition importEdge :: "string \<Rightarrow> string \<Rightarrow> Dependency" where
  "importEdge s t =
     \<lparr>source = s, target = t, dtype = Import, lineNumbers = Some [0], isExternal = False\<rparr>"

text \<open>A manifest with one dependency, \<^verbatim>\<open>{"dependencies": {"lodash": "^4.0.0"}}\<close>.\<close>

definition manifestText :: string where
  "manifestText =
     ''{'' @ [doubleQuote] @ ''dependencies'' @ [doubleQuote] @ '': {'' @ [doubleQuote]
       @ ''lodash'' @ [doubleQuote] @ '': '' @ [doubleQuote] @ ''^4.0.0'' @ [doubleQuote] @ ''}}''"

text \<open>
  A world in which \<^verbatim>\<open>/p/b.ts\<close> is the only file that exists, no file can be read, and
  \<^verbatim>\<open>JSON.parse\<close> knows the manifest above.
\<close>

definition exampleWorld :: World where
  "exampleWorld =
     \<lparr>readFile = (\<lambda>p. Inl (FsError ''ENOENT'')),
      existsSync = (\<lambda>p. p = ''/p/b.ts''),
      cwd = ''/'',
      JSON_parse =
        (\<lambda>s. if s = manifestText
              then Inr (JObject [(''dependencies'', JObject [(''lodash'', JString ''^4.0.0'')])])
              else Inl SyntaxError)\<rparr>"

text \<open>A manager right after its construction, with the workspace at \<^verbatim>\<open>/p\<close>.\<close>

definition freshManager :: Manager where
  "freshManager = \<lparr>workspaceRoot = Some ''/p'', dependencyCache = Map.empty, trace = []\<rparr>"

text \<open>The script \<^verbatim>\<open>import _ from 'lodash'\<close>.\<close>

definition importLodash :: string where
  "importLodash = ''import _ from '' @ [apostrophe] @ ''lodash'' @ [apostrophe]"

text \<open>
  A script with a static import of a package, a \<^verbatim>\<open>require\<close> of a package, a dynamic import
  from a CDN and a static import of the neighbour \<^verbatim>\<open>./b\<close>, one on each line.
\<close>

definition mixedScript :: string where
  "mixedScript =
     ''import _ from '' @ [apostrophe] @ ''lodash'' @ [apostrophe] @ [newline]
     @ ''const fs = require('' @ [apostrophe] @ ''fs'' @ [apostrophe] @ '')'' @ [newline]
     @ ''import('' @ [apostrophe] @ ''https://cdn.example.com/x.js'' @ [apostrophe] @ '')''
     @ [newline]
     @ ''import b from '' @ [apostrophe] @ ''./b'' @ [apostrophe]"

text \<open>The TypeScript directive \<^verbatim>\<open>/// <reference path="http-types.d.ts" />\<close>.\<close>

definition referenceLine :: string where
  "referenceLine =
     ''/// <reference path='' @ [doubleQuote] @ ''http-types.d.ts'' @ [doubleQuote] @ '' />''"

text \<open>
  A small markdown file with its content loaded, and a descriptor of the same path made
  after the file has grown beyond the size limit.
\<close>

definition smallDoc :: FileInfo where
  "smallDoc = fileOf ''/p/README.md'' ''.md'' Markdown (Some ''[home](index.md)'')"

definition bigDoc :: FileInfo where
  "bigDoc = smallDoc\<lparr>size_bytes := 2 * 1024 * 1024, content := None\<rparr>"

text \<open>A script that cannot be read, and a manifest that is not JSON.\<close>

definition goneScript :: FileInfo where
  "goneScript = fileOf ''/p/gone.ts'' ''.ts'' TypeScript None"

definition brokenManifest :: FileInfo where
  "brokenManifest = fileOf ''/p/package.json'' ''.json'' JSON (Some ''{not json'')"

text \<open>Two markdown files in one directory; the first links to the second.\<close>

definition docA :: FileInfo where
  "docA = fileOf ''/p/a.md'' ''.md'' Markdown (Some ''[b](b.md)'')"

definition docB :: FileInfo where
  "docB = fileOf ''/p/b.md'' ''.md'' Markdown (Some ''no links'')"

text \<open>
  Three scripts in one directory: \<^verbatim>\<open>A.ts\<close> imports \<^verbatim>\<open>./B\<close>, \<^verbatim>\<open>B.ts\<close> imports \<^verbatim>\<open>./C\<close> and
  \<^verbatim>\<open>C.ts\<close> imports \<^verbatim>\<open>./A\<close>, in a world where the three files exist; and the graph with
  exactly the edges A\<rightarrow>B, B\<rightarrow>C and C\<rightarrow>A.
\<close>

definition importOf :: "string \<Rightarrow> string" where
  "importOf m = ''import x from '' @ [apostrophe] @ m @ [apostrophe]"

definition loopWorld :: World where
  "loopWorld =
     exampleWorld\<lparr>existsSync := (\<lambda>p. p \<in> {''/p/A.ts'', ''/p/B.ts'', ''/p/C.ts''})\<rparr>"

definition scriptA :: FileInfo where
  "scriptA = fileOf ''/p/A.ts'' ''.ts'' TypeScript (Some (importOf ''./B''))"

definition scriptB :: FileInfo where
  "scriptB = fileOf ''/p/B.ts'' ''.ts'' TypeScript (Some (importOf ''./C''))"

definition scriptC :: FileInfo where
  "scriptC = fileOf ''/p/C.ts'' ''.ts'' TypeScript (Some (importOf ''./A''))"

definition loopABC :: DependencyGraph where
  "loopABC =
     \<lparr>nodes = [(''/p/A.ts'', scriptA), (''/p/B.ts'', scriptB), (''/p/C.ts'', scriptC)],
      edges = [(''/p/A.ts'', [(''/p/B.ts'', importEdge ''/p/A.ts'' ''/p/B.ts'')]),
               (''/p/B.ts'', [(''/p/C.ts'', importEdge ''/p/B.ts'' ''/p/C.ts'')]),
               (''/p/C.ts'', [(''/p/A.ts'', importEdge ''/p/C.ts'' ''/p/A.ts'')])]\<rparr>"

section \<open>Cycle detection: rotations of one loop\<close>

lemma script_extraction:
  "extractJavaScriptDependencies loopWorld (Some ''/p'') ''/p/A.ts'' (importOf ''./B'') []
     = [importEdge ''/p/A.ts'' ''/p/B.ts'']"
  "extractJavaScriptDependencies loopWorld (Some ''/p'') ''/p/B.ts'' (importOf ''./C'') []
     = [importEdge ''/p/B.ts'' ''/p/C.ts'']"
  "extractJavaScriptDependencies loopWorld (Some ''/p'') ''/p/C.ts'' (importOf ''./A'') []
     = [importEdge ''/p/C.ts'' ''/p/A.ts'']"
  by code_simp+

lemma importOf_nonempty: "importOf m \<noteq> []"
  by (simp add: importOf_def)

lemma loop_built:
  "fst (buildDependencyGraph loopWorld (projectOf [scriptA, scriptB, scriptC]) freshManager) = loopABC"
  by (simp add: buildDependencyGraph_def projectOf_def analyzeDependencies_def scriptA_def scriptB_def
      scriptC_def fileOf_def freshManager_def isBinaryFile_def binaryExtensions_def
      loadContent_def extractByType_def script_extraction cacheSet_def logged_def
      importOf_nonempty loopABC_def importEdge_def)

text \<open>
  C1. The claim: \<^verbatim>\<open>findCircularDependencies\<close> never reports two rotations of one loop, and
  on the graph with exactly the edges A\<rightarrow>B, B\<rightarrow>C, C\<rightarrow>A it returns exactly one cycle.
  The code compares a recorded cycle with the new one as sequences that still carry the
  closing node (\<open>[A,B,C,A]\<close> against \<open>[B,C,A,B]\<close>), modulo the length with that node
  counted, so no offset makes the two agree. Each of the three searches (one per start
  node, each with a fresh \<^verbatim>\<open>visited\<close> set) therefore records its own rotation: on the
  graph that the builder makes of the three scripts, the detector returns three cycles.
\<close>

theorem findCircularDependencies_loopABC:
  "fst (buildDependencyGraph loopWorld (projectOf [scriptA, scriptB, scriptC]) freshManager) = loopABC
   \<and> findCircularDependencies loopABC =
     [[''/p/A.ts'', ''/p/B.ts'', ''/p/C.ts'', ''/p/A.ts''],
      [''/p/B.ts'', ''/p/C.ts'', ''/p/A.ts'', ''/p/B.ts''],
      [''/p/C.ts'', ''/p/A.ts'', ''/p/B.ts'', ''/p/C.ts'']]"
  by (simp add: loop_built)
    (simp add: findCircularDependencies_def loopABC_def isCycleRecorded_def sameRotation_def)

section \<open>External references\<close>

lemma includesAny_iff:
  "includesAny importPath patterns \<longleftrightarrow>
     (\<exists>pattern \<in> set patterns. includesStr importPath pattern)"
  by (induction patterns) auto

lemma forEachMatch_map_filter:
  "forEachMatch body ms dependencies = dependencies @ List.map_filter body ms"
  by (induction ms arbitrary: dependencies) (auto simp: List.map_filter_simps split: option.splits)

text \<open>
  C7. A reference is external exactly when it contains one of the configured markers or
  starts with neither \<^verbatim>\<open>.\<close> nor \<^verbatim>\<open>/\<close>; \<^verbatim>\<open>shouldProcessExternalDependency\<close> is false for
  every input; so the loop over the script imports skips every external reference before
  it resolves a path, and pushes one record, marked internal, for each of the others. For
  the extractor of scripts: what it adds for the matches of the import pattern, the
  \<^verbatim>\<open>require\<close> pattern and the dynamic import pattern, taken in this order, is one record
  for each match whose reference is not external, and none for the others; the records of
  the reference directives follow.
\<close>

theorem external_reference_policy:
  "(isExternalDependency importPath \<longleftrightarrow>
      (\<exists>pattern \<in> set externalPackagePatterns. includesStr importPath pattern)
      \<or> \<not> (startsWith importPath ''.'' \<or> startsWith importPath ''/''))
   \<and> externalPackagePatterns =
       [''node_modules'', ''https://cdn'', ''http://cdn'', ''https://unpkg.com'',
        ''https://jsdelivr.com'']
   \<and> \<not> shouldProcessExternalDependency importPath
   \<and> (isExternalDependency (capture m 1) \<longrightarrow> importBody w wsRoot filePath contents m = None)
   \<and> forEachMatch (importBody w wsRoot filePath contents) ms dependencies =
       dependencies @
       map (\<lambda>m. \<lparr>source = filePath,
                  target = resolveImportPath w wsRoot filePath (capture m 1),
                  dtype = Import,
                  lineNumbers = Some (findLineNumbers contents (fst m)),
                  isExternal = False\<rparr>)
         (filter (\<lambda>m. \<not> isExternalDependency (capture m 1)) ms)
   \<and> extractJavaScriptDependencies w wsRoot filePath contents dependencies =
       forEachMatch (referenceBody w wsRoot filePath contents) (matchAll referencePattern contents)
         (dependencies @
          map (\<lambda>m. \<lparr>source = filePath,
                     target = resolveImportPath w wsRoot filePath (capture m 1),
                     dtype = Import,
                     lineNumbers = Some (findLineNumbers contents (fst m)),
                     isExternal = False\<rparr>)
            (filter (\<lambda>m. \<not> isExternalDependency (capture m 1))
               (matchAll importPattern contents @ matchAll requirePattern contents
                @ matchAll dynamicImportPattern contents)))"
proof -
  have body: "importBody w wsRoot filePath contents =
      (\<lambda>m. if isExternalDependency (capture m 1) then None
            else Some \<lparr>source = filePath,
                  target = resolveImportPath w wsRoot filePath (capture m 1),
                  dtype = Import,
                  lineNumbers = Some (findLineNumbers contents (fst m)),
                  isExternal = False\<rparr>)"
    by (auto simp: importBody_def shouldProcessExternalDependency_def Let_def)
  have loop: "List.map_filter (\<lambda>m. if P m then None else Some (f m)) ms
      = map f (filter (\<lambda>m. \<not> P m) ms)"
    for P :: "string \<times> string list \<Rightarrow> bool" and f :: "string \<times> string list \<Rightarrow> Dependency"
      and ms
    by (induction ms) (auto simp: List.map_filter_simps)
  have importLoop: "forEachMatch (importBody w wsRoot filePath contents) ms dependencies =
       dependencies @
       map (\<lambda>m. \<lparr>source = filePath,
                  target = resolveImportPath w wsRoot filePath (capture m 1),
                  dtype = Import,
                  lineNumbers = Some (findLineNumbers contents (fst m)),
                  isExternal = False\<rparr>)
         (filter (\<lambda>m. \<not> isExternalDependency (capture m 1)) ms)" for ms
    by (simp add: forEachMatch_map_filter body loop)
  have extractor: "extractJavaScriptDependencies w wsRoot filePath contents dependencies =
       forEachMatch (referenceBody w wsRoot filePath contents) (matchAll referencePattern contents)
         (forEachMatch (importBody w wsRoot filePath contents)
            (matchAll importPattern contents @ matchAll requirePattern contents
             @ matchAll dynamicImportPattern contents) dependencies)"
    by (simp add: extractJavaScriptDependencies_def Let_def)
  show ?thesis
    unfolding extractor importLoop
    by (simp add: isExternalDependency_def includesAny_iff shouldProcessExternalDependency_def
        body externalPackagePatterns_def)
qed

text \<open>
  The bare specifier \<^verbatim>\<open>lodash\<close> is external, the import pattern finds it in
  \<^verbatim>\<open>import _ from 'lodash'\<close>, and the extractor emits nothing for that script. Of the four
  references of the script with a static import of \<^verbatim>\<open>lodash\<close>, a \<^verbatim>\<open>require\<close> of \<^verbatim>\<open>fs\<close>, a
  dynamic import from a CDN and a static import of \<^verbatim>\<open>./b\<close>, the last alone gets a record.
\<close>

theorem external_reference_policy_witness:
  "isExternalDependency ''lodash'' \<and> isExternalDependency ''fs''
   \<and> isExternalDependency ''https://cdn.example.com/x.js'' \<and> \<not> isExternalDependency ''./b''
   \<and> matchAll importPattern importLodash = [(importLodash, [''lodash''])]
   \<and> importBody exampleWorld None ''/p/a.ts'' importLodash (importLodash, [''lodash'']) = None
   \<and> extractJavaScriptDependencies exampleWorld None ''/p/a.ts'' importLodash [] = []
   \<and> map (\<lambda>m. capture m 1) (matchAll importPattern mixedScript) = [''lodash'', ''./b'']
   \<and> map (\<lambda>m. capture m 1) (matchAll requirePattern mixedScript) = [''fs'']
   \<and> map (\<lambda>m. capture m 1) (matchAll dynamicImportPattern mixedScript)
       = [''https://cdn.example.com/x.js'']
   \<and> matchAll referencePattern mixedScript = []
   \<and> extractJavaScriptDependencies exampleWorld None ''/p/a.ts'' mixedScript [] =
       [\<lparr>source = ''/p/a.ts'', target = ''/p/b.ts'', dtype = Import,
         lineNumbers = Some [3], isExternal = False\<rparr>]"
proof -
  have ext: "isExternalDependency ''lodash''" "isExternalDependency ''fs''"
    "isExternalDependency ''https://cdn.example.com/x.js''" "\<not> isExternalDependency ''./b''"
    by code_simp+
  then have "isExternalDependency (capture (importLodash, [''lodash'']) 1)"
    by (simp add: capture_def)
  with external_reference_policy
    [of _ "(importLodash, [''lodash''])" exampleWorld None "''/p/a.ts''" importLodash]
  have skip: "importBody exampleWorld None ''/p/a.ts'' importLodash (importLodash, [''lodash''])
      = None"
    by blast
  have found: "matchAll importPattern importLodash = [(importLodash, [''lodash''])]"
    by code_simp
  have skipped: "forEachMatch (referenceBody exampleWorld None ''/p/a.ts'' importLodash)
      (matchAll referencePattern importLodash)
      ([] @
       map (\<lambda>m. \<lparr>source = ''/p/a.ts'',
                  target = resolveImportPath exampleWorld None ''/p/a.ts'' (capture m 1),
                  dtype = Import,
                  lineNumbers = Some (findLineNumbers importLodash (fst m)),
                  isExternal = False\<rparr>)
         (filter (\<lambda>m. \<not> isExternalDependency (capture m 1))
            (matchAll importPattern importLodash @ matchAll requirePattern importLodash
             @ matchAll dynamicImportPattern importLodash)))
      = []"
    by code_simp
  from external_reference_policy [of _ _ exampleWorld None "''/p/a.ts''" importLodash _ "[]"]
  have none: "extractJavaScriptDependencies exampleWorld None ''/p/a.ts'' importLodash [] = []"
    unfolding skipped by blast
  have imps: "map (\<lambda>m. capture m 1) (matchAll importPattern mixedScript) = [''lodash'', ''./b'']"
    and reqs: "map (\<lambda>m. capture m 1) (matchAll requirePattern mixedScript) = [''fs'']"
    and dyns: "map (\<lambda>m. capture m 1) (matchAll dynamicImportPattern mixedScript)
       = [''https://cdn.example.com/x.js'']"
    and refs: "matchAll referencePattern mixedScript = []"
    by code_simp+
  have kept: "forEachMatch (referenceBody exampleWorld None ''/p/a.ts'' mixedScript)
      (matchAll referencePattern mixedScript)
      ([] @
       map (\<lambda>m. \<lparr>source = ''/p/a.ts'',
                  target = resolveImportPath exampleWorld None ''/p/a.ts'' (capture m 1),
                  dtype = Import,
                  lineNumbers = Some (findLineNumbers mixedScript (fst m)),
                  isExternal = False\<rparr>)
         (filter (\<lambda>m. \<not> isExternalDependency (capture m 1))
            (matchAll importPattern mixedScript @ matchAll requirePattern mixedScript
             @ matchAll dynamicImportPattern mixedScript)))
      = [\<lparr>source = ''/p/a.ts'', target = ''/p/b.ts'', dtype = Import,
          lineNumbers = Some [3], isExternal = False\<rparr>]"
    by code_simp
  from external_reference_policy [of _ _ exampleWorld None "''/p/a.ts''" mixedScript _ "[]"]
  have one: "extractJavaScriptDependencies exampleWorld None ''/p/a.ts'' mixedScript [] =
       [\<lparr>source = ''/p/a.ts'', target = ''/p/b.ts'', dtype = Import,
         lineNumbers = Some [3], isExternal = False\<rparr>]"
    unfolding kept by blast
  from ext found skip none imps reqs dyns refs one show ?thesis
    by simp
qed

section \<open>Path resolution\<close>

lemma tryExtensions_first:
  "i < length exts \<Longrightarrow> existsSync w (p @ exts ! i) \<Longrightarrow> \<forall>j<i. \<not> existsSync w (p @ exts ! j)
     \<Longrightarrow> tryExtensions w p exts = Some (p @ exts ! i)"
proof (induction exts arbitrary: i)
  case Nil
  then show ?case by simp
next
  case (Cons e exts)
  show ?case
  proof (cases i)
    case 0
    with Cons.prems show ?thesis by simp
  next
    case (Suc k)
    with Cons.prems have "\<not> existsSync w (p @ e)" by auto
    moreover from Suc Cons.prems have "tryExtensions w p exts = Some (p @ exts ! k)"
      by (intro Cons.IH) auto
    ultimately show ?thesis using Suc by simp
  qed
qed

lemma tryExtensions_none:
  "\<forall>e \<in> set exts. \<not> existsSync w (p @ e) \<Longrightarrow> tryExtensions w p exts = None"
  by (induction exts) auto

lemma tryIndexFiles_first:
  "i < length exts \<Longrightarrow> existsSync w (path_join [p, ''index'' @ exts ! i])
     \<Longrightarrow> \<forall>j<i. \<not> existsSync w (path_join [p, ''index'' @ exts ! j])
     \<Longrightarrow> tryIndexFiles w p exts = Some (path_join [p, ''index'' @ exts ! i])"
proof (induction exts arbitrary: i)
  case Nil
  then show ?case by simp
next
  case (Cons e exts)
  show ?case
  proof (cases i)
    case 0
    with Cons.prems show ?thesis by simp
  next
    case (Suc k)
    with Cons.prems have "\<not> existsSync w (path_join [p, ''index'' @ e])" by auto
    moreover from Suc Cons.prems
    have "tryIndexFiles w p exts = Some (path_join [p, ''index'' @ exts ! k])"
      by (intro Cons.IH) auto
    ultimately show ?thesis using Suc by simp
  qed
qed

lemma tryIndexFiles_none:
  "\<forall>e \<in> set exts. \<not> existsSync w (path_join [p, ''index'' @ e])
     \<Longrightarrow> tryIndexFiles w p exts = None"
  by (induction exts) auto

text \<open>
  C5, amended. For a reference that does not start with \<^verbatim>\<open>/\<close>, let \<open>resolvedPath\<close> be the reference
  resolved against the directory of the source file. A reference that starts with the
  characters \<^verbatim>\<open>http\<close> is returned as it is. For any other: with an extension
  \<open>resolvedPath\<close> is the result. Without one, the result is \<open>resolvedPath\<close> with the first
  extension of the list, in its order, for which that file exists; if there is none,
  \<^verbatim>\<open>index\<close> with the first extension for which that file exists inside \<open>resolvedPath\<close>; if
  there is none either, \<open>resolvedPath\<close> unchanged.
\<close>

theorem resolveImportPath_relative:
  assumes "\<not> startsWith importPath ''/''"
  shows "extensions =
      [''.js'', ''.jsx'', ''.ts'', ''.tsx'', ''.json'', ''.css'', ''.scss'', ''.html'', ''.md'']
    \<and> (let resolvedPath = path_resolve (cwd w) [path_dirname sourcePath, importPath];
            result = resolveImportPath w wsRoot sourcePath importPath
        in (startsWith importPath ''http'' \<longrightarrow> result = importPath)
         \<and> (\<not> startsWith importPath ''http'' \<longrightarrow>
              (path_extname resolvedPath \<noteq> [] \<longrightarrow> result = resolvedPath)
            \<and> (path_extname resolvedPath = [] \<longrightarrow>
                 (\<forall>i < length extensions.
                     existsSync w (resolvedPath @ extensions ! i)
                     \<and> (\<forall>j<i. \<not> existsSync w (resolvedPath @ extensions ! j))
                     \<longrightarrow> result = resolvedPath @ extensions ! i)
               \<and> ((\<forall>e \<in> set extensions. \<not> existsSync w (resolvedPath @ e)) \<longrightarrow>
                     (\<forall>i < length extensions.
                         existsSync w (path_join [resolvedPath, ''index'' @ extensions ! i])
                         \<and> (\<forall>j<i. \<not> existsSync w
                                       (path_join [resolvedPath, ''index'' @ extensions ! j]))
                         \<longrightarrow> result = path_join [resolvedPath, ''index'' @ extensions ! i])
                   \<and> ((\<forall>e \<in> set extensions.
                           \<not> existsSync w (path_join [resolvedPath, ''index'' @ e]))
                         \<longrightarrow> result = resolvedPath)))))"
proof (cases "startsWith importPath ''http''")
  case True
  with assms have "resolveImportPath w wsRoot sourcePath importPath = importPath"
    by (simp add: resolveImportPath_def split: option.splits)
  with True show ?thesis
    by (simp add: Let_def extensions_def)
next
  case False
  with assms show ?thesis
    by (auto simp: resolveImportPath_def Let_def tryExtensions_first tryExtensions_none
        tryIndexFiles_first tryIndexFiles_none extensions_def[symmetric]
        simp del: tryExtensions.simps tryIndexFiles.simps)
qed

text \<open>
  The scenario of the claim: the source is \<^verbatim>\<open>/p/a.ts\<close>, the reference \<^verbatim>\<open>./b\<close>, and
  \<^verbatim>\<open>/p/b.ts\<close> exists while \<^verbatim>\<open>/p/b\<close>, \<^verbatim>\<open>/p/b.js\<close> and \<^verbatim>\<open>/p/b.jsx\<close> do not. The reference
  \<^verbatim>\<open>httpd/conf\<close> is returned as it is.
\<close>

theorem resolveImportPath_relative_witness:
  "\<not> startsWith ''./b'' ''/'' \<and> \<not> startsWith ''./b'' ''http''
   \<and> path_resolve (cwd exampleWorld) [path_dirname ''/p/a.ts'', ''./b''] = ''/p/b''
   \<and> path_extname ''/p/b'' = []
   \<and> existsSync exampleWorld ''/p/b.ts'' \<and> \<not> existsSync exampleWorld ''/p/b''
   \<and> \<not> existsSync exampleWorld ''/p/b.js'' \<and> \<not> existsSync exampleWorld ''/p/b.jsx''
   \<and> resolveImportPath exampleWorld None ''/p/a.ts'' ''./b'' = ''/p/b.ts''
   \<and> \<not> startsWith ''httpd/conf'' ''/'' \<and> startsWith ''httpd/conf'' ''http''
   \<and> resolveImportPath exampleWorld None ''/p/a.ts'' ''httpd/conf'' = ''httpd/conf''"
proof -
  have rel: "\<not> startsWith ''./b'' ''/''" and noHttp: "\<not> startsWith ''./b'' ''http''"
    and rel': "\<not> startsWith ''httpd/conf'' ''/''" and http: "startsWith ''httpd/conf'' ''http''"
    by (simp_all add: startsWith_def)
  from resolveImportPath_relative [OF rel', of exampleWorld "''/p/a.ts''" None] http
  have unchanged: "resolveImportPath exampleWorld None ''/p/a.ts'' ''httpd/conf'' = ''httpd/conf''"
    by (simp add: Let_def)
  have res: "path_resolve (cwd exampleWorld) [path_dirname ''/p/a.ts'', ''./b''] = ''/p/b''"
    by (simp add: exampleWorld_def path_resolve_def path_dirname_def normalizeString_def)
  have ext: "path_extname ''/p/b'' = []"
    by (simp add: path_extname_def lastComponent_def)
  have ex: "existsSync exampleWorld ''/p/b.ts''" "\<not> existsSync exampleWorld ''/p/b''"
    "\<not> existsSync exampleWorld ''/p/b.js''" "\<not> existsSync exampleWorld ''/p/b.jsx''"
    by (simp_all add: exampleWorld_def)
  have i: "(2::nat) < length extensions" "extensions ! 2 = ''.ts''" "extensions ! 0 = ''.js''"
    "extensions ! 1 = ''.jsx''"
    by (simp_all add: extensions_def)
  have "\<forall>j<2. \<not> existsSync exampleWorld (''/p/b'' @ extensions ! j)"
    using ex i by (auto simp: less_Suc_eq numeral_2_eq_2)
  with resolveImportPath_relative [OF rel, of exampleWorld "''/p/a.ts''" None] noHttp res ext ex i
  have "resolveImportPath exampleWorld None ''/p/a.ts'' ''./b'' = ''/p/b.ts''"
    by (auto simp: Let_def)
  with rel noHttp res ext ex rel' http unchanged show ?thesis by simp
qed

text \<open>
  C5. The claim: every relative reference is resolved against the directory of the
  source file. A relative reference that starts with the characters \<^verbatim>\<open>http\<close> is not. The
  reference directive \<^verbatim>\<open>/// <reference path="http-types.d.ts" />\<close> of \<^verbatim>\<open>/p/a.ts\<close> names the
  file \<^verbatim>\<open>/p/http-types.d.ts\<close>, and the extractor records the target \<^verbatim>\<open>http-types.d.ts\<close>;
  the reference \<^verbatim>\<open>httpd/conf\<close>, without an extension, comes back unchanged as well.
\<close>

theorem resolveImportPath_relative_counterexample:
  "\<not> startsWith ''http-types.d.ts'' ''/''
   \<and> path_resolve (cwd exampleWorld) [path_dirname ''/p/a.ts'', ''http-types.d.ts'']
       = ''/p/http-types.d.ts''
   \<and> path_extname ''/p/http-types.d.ts'' = ''.ts''
   \<and> resolveImportPath exampleWorld (Some ''/p'') ''/p/a.ts'' ''http-types.d.ts''
       = ''http-types.d.ts''
   \<and> extractJavaScriptDependencies exampleWorld (Some ''/p'') ''/p/a.ts'' referenceLine []
       = [\<lparr>source = ''/p/a.ts'', target = ''http-types.d.ts'', dtype = Reference,
           lineNumbers = Some [0], isExternal = False\<rparr>]
   \<and> path_resolve (cwd exampleWorld) [path_dirname ''/p/a.ts'', ''httpd/conf''] = ''/p/httpd/conf''
   \<and> path_extname ''/p/httpd/conf'' = []
   \<and> resolveImportPath exampleWorld (Some ''/p'') ''/p/a.ts'' ''httpd/conf'' = ''httpd/conf''"
  by code_simp

section \<open>Package manifests\<close>

lemma pushPackages_map:
  "pushPackages filePath pkgs dependencies =
     dependencies @
     map (\<lambda>pkg. \<lparr>source = filePath, target = ''node_modules/'' @ pkg, dtype = Import,
                  lineNumbers = None, isExternal = True\<rparr>) pkgs"
  by (induction pkgs arbitrary: dependencies) auto

lemma sectionsLoop_object:
  "sectionsLoop filePath (JObject entries) sections dependencies =
     (dependencies @
      concat (map (\<lambda>sec. case map_of entries sec of
                       None \<Rightarrow> []
                     | Some v \<Rightarrow> if truthy v
                         then map (\<lambda>pkg. \<lparr>source = filePath, target = ''node_modules/'' @ pkg,
                                         dtype = Import, lineNumbers = None, isExternal = True\<rparr>)
                                (entryKeys v)
                         else []) sections),
      None)"
  by (induction sections arbitrary: dependencies) (auto simp: pushPackages_map split: option.splits)

text \<open>
  C6. For a path that ends in \<^verbatim>\<open>package.json\<close> and a content that parses to an object
  whose sections (those that are present) are objects, the extractor emits, section by
  section in the order \<^verbatim>\<open>dependencies\<close>, \<^verbatim>\<open>devDependencies\<close>, \<^verbatim>\<open>peerDependencies\<close>,
  \<^verbatim>\<open>optionalDependencies\<close>, one record for each package of the section: target
  \<^verbatim>\<open>node_modules/<package>\<close>, kind import, external; and it logs nothing.
\<close>

theorem extractJSONDependencies_manifest:
  assumes "endsWith filePath ''package.json''"
      and "JSON_parse w contents = Inr (JObject entries)"
      and "\<forall>sec \<in> set dependencySections. \<forall>v.
             map_of entries sec = Some v \<longrightarrow> (\<exists>pkgs. v = JObject pkgs)"
  shows "dependencySections =
       [''dependencies'', ''devDependencies'', ''peerDependencies'', ''optionalDependencies'']
     \<and> extractJSONDependencies w filePath contents [] =
       (concat (map (\<lambda>sec. case map_of entries sec of
                        Some (JObject pkgs) \<Rightarrow>
                          map (\<lambda>(pkg, version).
                                 \<lparr>source = filePath, target = ''node_modules/'' @ pkg,
                                  dtype = Import, lineNumbers = None, isExternal = True\<rparr>) pkgs
                      | _ \<Rightarrow> [])
                  dependencySections),
        [])"
proof -
  have "(case map_of entries sec of
           None \<Rightarrow> []
         | Some v \<Rightarrow> if truthy v
             then map (\<lambda>pkg. \<lparr>source = filePath, target = ''node_modules/'' @ pkg,
                             dtype = Import, lineNumbers = None, isExternal = True\<rparr>)
                    (entryKeys v)
             else [])
      = (case map_of entries sec of
           Some (JObject pkgs) \<Rightarrow>
             map (\<lambda>(pkg, version).
                    \<lparr>source = filePath, target = ''node_modules/'' @ pkg, dtype = Import,
                     lineNumbers = None, isExternal = True\<rparr>) pkgs
         | _ \<Rightarrow> [])"
    if "sec \<in> set dependencySections" for sec
    using assms(3) that by (auto split: option.splits json.splits simp: case_prod_unfold)
  then have "map (\<lambda>sec. case map_of entries sec of
           None \<Rightarrow> []
         | Some v \<Rightarrow> if truthy v
             then map (\<lambda>pkg. \<lparr>source = filePath, target = ''node_modules/'' @ pkg,
                             dtype = Import, lineNumbers = None, isExternal = True\<rparr>)
                    (entryKeys v)
             else []) dependencySections
      = map (\<lambda>sec. case map_of entries sec of
           Some (JObject pkgs) \<Rightarrow>
             map (\<lambda>(pkg, version).
                    \<lparr>source = filePath, target = ''node_modules/'' @ pkg, dtype = Import,
                     lineNumbers = None, isExternal = True\<rparr>) pkgs
         | _ \<Rightarrow> []) dependencySections"
    by (intro map_cong refl)
  with assms(1,2) show ?thesis
    by (simp add: extractJSONDependencies_def sectionsLoop_object)
      (simp add: dependencySections_def)
qed

text \<open>
  The scenario of the claim: the manifest \<^verbatim>\<open>{"dependencies": {"lodash": "^4.0.0"}}\<close> gives
  one record, with the target \<^verbatim>\<open>node_modules/lodash\<close>.
\<close>

theorem extractJSONDependencies_manifest_witness:
  "endsWith ''/p/package.json'' ''package.json''
   \<and> JSON_parse exampleWorld manifestText =
       Inr (JObject [(''dependencies'', JObject [(''lodash'', JString ''^4.0.0'')])])
   \<and> extractJSONDependencies exampleWorld ''/p/package.json'' manifestText [] =
       ([\<lparr>source = ''/p/package.json'', target = ''node_modules/lodash'', dtype = Import,
          lineNumbers = None, isExternal = True\<rparr>], [])"
proof -
  have e: "endsWith ''/p/package.json'' ''package.json''"
    by (simp add: endsWith_def suffix_def)
  have p: "JSON_parse exampleWorld manifestText =
       Inr (JObject [(''dependencies'', JObject [(''lodash'', JString ''^4.0.0'')])])"
    by (simp add: exampleWorld_def)
  have s: "\<forall>sec \<in> set dependencySections. \<forall>v.
      map_of [(''dependencies'', JObject [(''lodash'', JString ''^4.0.0'')])] sec = Some v
        \<longrightarrow> (\<exists>pkgs. v = JObject pkgs)"
    by (simp add: dependencySections_def)
  from extractJSONDependencies_manifest [OF e p s] e p show ?thesis
    by (simp add: dependencySections_def)
qed

section \<open>Analysis of one file\<close>

lemma smallDoc_extraction:
  "extractMarkdownDependencies exampleWorld (Some ''/p'') ''/p/README.md'' ''[home](index.md)'' []
     = [\<lparr>source = ''/p/README.md'', target = ''/p/index.md'', dtype = Reference,
         lineNumbers = Some [0], isExternal = False\<rparr>]"
  by code_simp

lemma smallDoc_analysis:
  "analyzeDependencies exampleWorld smallDoc freshManager =
     ([\<lparr>source = ''/p/README.md'', target = ''/p/index.md'', dtype = Reference,
        lineNumbers = Some [0], isExternal = False\<rparr>],
      freshManager
        \<lparr>dependencyCache :=
           [''/p/README.md'' \<mapsto>
              [\<lparr>source = ''/p/README.md'', target = ''/p/index.md'', dtype = Reference,
                lineNumbers = Some [0], isExternal = False\<rparr>]],
         trace := [CacheSet ''/p/README.md'']\<rparr>)"
  by (simp add: analyzeDependencies_def smallDoc_def fileOf_def freshManager_def
      isBinaryFile_def binaryExtensions_def loadContent_def extractByType_def
      smallDoc_extraction cacheSet_def logged_def)

text \<open>
  C3. The claim: every descriptor above 1 MiB, of an image, or with a binary extension
  gets the empty list, with no read of the content and no error. The cache is looked up
  before the size and the kind of the file are: a descriptor whose path already has an
  entry gets that entry, which need not be empty. Here \<^verbatim>\<open>/p/README.md\<close> is analysed while
  it is small, and again through a descriptor of 2 MiB.
\<close>

theorem analyzeDependencies_skipped_counterexample:
  "1024 * 1024 < size_bytes bigDoc
   \<and> fst (analyzeDependencies exampleWorld bigDoc
            (snd (analyzeDependencies exampleWorld smallDoc freshManager)))
     = [\<lparr>source = ''/p/README.md'', target = ''/p/index.md'', dtype = Reference,
         lineNumbers = Some [0], isExternal = False\<rparr>]"
  by (simp add: smallDoc_analysis)
    (simp add: analyzeDependencies_def bigDoc_def smallDoc_def fileOf_def)

text \<open>
  C3, amended. For such a descriptor the call returns the entry of the cache when the
  path has one, leaving the manager as it is; otherwise it returns the empty list,
  stores it, and the only effect is that write: no read, no message, whatever the world.
\<close>

theorem analyzeDependencies_skipped:
  assumes "size_bytes file > 1024 * 1024 \<or> type file = Image
             \<or> extension file \<in> set binaryExtensions"
  shows "analyzeDependencies w file this =
     (case dependencyCache this (path file) of
        Some cached \<Rightarrow> (cached, this)
      | None \<Rightarrow>
          ([], this\<lparr>dependencyCache := (dependencyCache this)(path file \<mapsto> []),
                    trace := trace this @ [CacheSet (path file)]\<rparr>))"
  using assms
  by (auto simp: analyzeDependencies_def isBinaryFile_def cacheSet_def split: option.splits)

theorem analyzeDependencies_skipped_witness:
  "1024 * 1024 < size_bytes bigDoc
   \<and> analyzeDependencies exampleWorld bigDoc freshManager =
       ([], freshManager\<lparr>dependencyCache := [''/p/README.md'' \<mapsto> []],
                         trace := [CacheSet ''/p/README.md'']\<rparr>)"
proof -
  have big: "1024 * 1024 < size_bytes bigDoc"
    by (simp add: bigDoc_def)
  then have "size_bytes bigDoc > 1024 * 1024 \<or> type bigDoc = Image
      \<or> extension bigDoc \<in> set binaryExtensions"
    by simp
  from analyzeDependencies_skipped [OF this, of exampleWorld freshManager] big
  show ?thesis
    by (simp add: freshManager_def bigDoc_def smallDoc_def fileOf_def)
qed

lemma extractByType_events:
  "e \<in> set (snd (extractByType w wsRoot file contents)) \<Longrightarrow> \<exists>msg x. e = ConsoleError msg x"
  by (auto simp: extractByType_def extractJSONDependencies_def
      split: FileType.splits sum.splits prod.splits option.splits if_splits)

lemma loadContent_events:
  "e \<in> set (snd (loadContent w file)) \<Longrightarrow> e = ReadFile (path file)"
  by (auto simp: loadContent_def split: option.splits if_splits)

lemma filter_no_CacheSet:
  "\<forall>e \<in> set es. e \<noteq> CacheSet p \<Longrightarrow> filter (\<lambda>e. e = CacheSet p) es = []"
  by (induction es) auto

text \<open>
  C4. After a call for a path, a second call for the same path (through any descriptor
  with that path, in any world) returns the same list and leaves the manager, its trace
  included, as it is: the cache answers before anything is read or matched. The first
  call leaves the list it returns in the cache, empty or not, and writes the entry of the
  path exactly once if the path had none, and not at all if it had one.
\<close>

theorem analyzeDependencies_idempotent:
  assumes first: "analyzeDependencies w file this = (dependencies, this')"
      and same: "path file' = path file"
  shows "analyzeDependencies w' file' this' = (dependencies, this')
     \<and> dependencyCache this' (path file) = Some dependencies
     \<and> length (filter (\<lambda>e. e = CacheSet (path file)) (trace this'))
         = length (filter (\<lambda>e. e = CacheSet (path file)) (trace this))
           + (if dependencyCache this (path file) = None then 1 else 0)"
proof -
  have cached: "dependencyCache this' (path file) = Some dependencies"
    using first
    by (auto simp: analyzeDependencies_def cacheSet_def logged_def
        split: option.splits if_splits sum.splits prod.splits)
  then have again: "analyzeDependencies w' file' this' = (dependencies, this')"
    using same by (simp add: analyzeDependencies_def)
  have count: "length (filter (\<lambda>e. e = CacheSet (path file)) (trace this'))
         = length (filter (\<lambda>e. e = CacheSet (path file)) (trace this))
           + (if dependencyCache this (path file) = None then 1 else 0)"
  proof (cases "dependencyCache this (path file)")
    case (Some c)
    with first show ?thesis by (simp add: analyzeDependencies_def)
  next
    case None
    have reads: "filter (\<lambda>e. e = CacheSet (path file)) (snd (loadContent w file)) = []"
      by (rule filter_no_CacheSet) (auto dest: loadContent_events)
    have evs: "filter (\<lambda>e. e = CacheSet (path file)) (snd (extractByType w r file c)) = []"
      for r c
      by (rule filter_no_CacheSet) (auto dest: extractByType_events)
    from first None show ?thesis
      using reads evs[of "workspaceRoot this"]
      by (auto simp: analyzeDependencies_def cacheSet_def logged_def
          split: if_splits sum.splits prod.splits)
        (metis snd_conv)
  qed
  from again cached count show ?thesis by simp
qed

text \<open>
  The file \<^verbatim>\<open>/p/README.md\<close> is analysed from its loaded content; the second call goes
  through the descriptor without content, in a world where the file reads as something
  else, and returns the first result.
\<close>

theorem analyzeDependencies_idempotent_witness:
  "path bigDoc = path smallDoc
   \<and> analyzeDependencies (exampleWorld\<lparr>readFile := (\<lambda>p. Inr ''[other](changed.md)'')\<rparr>) bigDoc
        (snd (analyzeDependencies exampleWorld smallDoc freshManager))
     = analyzeDependencies exampleWorld smallDoc freshManager
   \<and> fst (analyzeDependencies exampleWorld smallDoc freshManager)
     = [\<lparr>source = ''/p/README.md'', target = ''/p/index.md'', dtype = Reference,
         lineNumbers = Some [0], isExternal = False\<rparr>]"
proof -
  have same: "path bigDoc = path smallDoc"
    by (simp add: bigDoc_def)
  obtain dependencies this' where
    first: "analyzeDependencies exampleWorld smallDoc freshManager = (dependencies, this')"
    by (cases "analyzeDependencies exampleWorld smallDoc freshManager")
  from analyzeDependencies_idempotent [OF first same]
  have "analyzeDependencies (exampleWorld\<lparr>readFile := (\<lambda>p. Inr ''[other](changed.md)'')\<rparr>)
      bigDoc this' = (dependencies, this')"
    by blast
  with first have again:
    "analyzeDependencies (exampleWorld\<lparr>readFile := (\<lambda>p. Inr ''[other](changed.md)'')\<rparr>) bigDoc
        (snd (analyzeDependencies exampleWorld smallDoc freshManager))
     = analyzeDependencies exampleWorld smallDoc freshManager"
    by simp
  have "fst (analyzeDependencies exampleWorld smallDoc freshManager)
     = [\<lparr>source = ''/p/README.md'', target = ''/p/index.md'', dtype = Reference,
         lineNumbers = Some [0], isExternal = False\<rparr>]"
    by (simp add: smallDoc_analysis)
  with same again show ?thesis by blast
qed

text \<open>
  C8. When the content of a file cannot be loaded, or the file is a package manifest
  whose content \<^verbatim>\<open>JSON.parse\<close> rejects, the call (on a path that is not in the cache, for
  a file that is not skipped) returns the empty list, stores it in the cache and writes a
  message with \<^verbatim>\<open>console.error\<close>; the loop of the graph builder goes on with the next
  file, the graph unchanged. Both exceptions are thrown inside a \<^verbatim>\<open>try\<close>; the model has
  the handler's branch for each, and no other operation of the call can throw.
\<close>

theorem analysis_failure_absorbed:
  assumes miss: "dependencyCache this (path file) = None"
      and small: "\<not> (size_bytes file > 1024 * 1024 \<or> isBinaryFile file)"
      and fails:
        "(\<exists>e. fst (loadContent w file) = Inl e)
         \<or> (type file = JSON \<and> endsWith (path file) ''package.json''
            \<and> (\<exists>contents e. fst (loadContent w file) = Inr contents
                             \<and> JSON_parse w contents = Inl e))"
  shows "\<exists>events msg e.
           analyzeDependencies w file this =
             ([], this\<lparr>dependencyCache := (dependencyCache this)(path file \<mapsto> []),
                       trace := trace this @ events @ [CacheSet (path file)]\<rparr>)
         \<and> ConsoleError msg e \<in> set events
         \<and> processFiles w (file # files) graph this =
             processFiles w files graph
               (this\<lparr>dependencyCache := (dependencyCache this)(path file \<mapsto> []),
                      trace := trace this @ events @ [CacheSet (path file)]\<rparr>)"
proof -
  obtain loaded reads where lc: "loadContent w file = (loaded, reads)"
    by (cases "loadContent w file")
  from fails consider
      (unreadable) e where "loaded = Inl e"
    | (malformed) contents e where "type file = JSON" "endsWith (path file) ''package.json''"
        "loaded = Inr contents" "JSON_parse w contents = Inl e"
    using lc by auto
  then show ?thesis
  proof cases
    case unreadable
    let ?events = "reads @ [ConsoleError (''Error reading file '' @ path file @ '':'') e]"
    have "analyzeDependencies w file this =
        ([], this\<lparr>dependencyCache := (dependencyCache this)(path file \<mapsto> []),
                  trace := trace this @ ?events @ [CacheSet (path file)]\<rparr>)"
      using miss small lc unreadable
      by (simp add: analyzeDependencies_def cacheSet_def logged_def)
    then show ?thesis
      by (intro exI[of _ ?events] exI[of _ "''Error reading file '' @ path file @ '':''"]
          exI[of _ e]) simp
  next
    case malformed
    let ?events = "reads @ [ConsoleError (''Error parsing JSON in '' @ path file @ '':'') e]"
    have "extractByType w (workspaceRoot this) file contents =
        ([], [ConsoleError (''Error parsing JSON in '' @ path file @ '':'') e])"
      using malformed by (simp add: extractByType_def extractJSONDependencies_def)
    then have "analyzeDependencies w file this =
        ([], this\<lparr>dependencyCache := (dependencyCache this)(path file \<mapsto> []),
                  trace := trace this @ ?events @ [CacheSet (path file)]\<rparr>)"
      using miss small lc malformed
      by (simp add: analyzeDependencies_def cacheSet_def logged_def)
    then show ?thesis
      by (intro exI[of _ ?events] exI[of _ "''Error parsing JSON in '' @ path file @ '':''"]
          exI[of _ e]) simp
  qed
qed

text \<open>
  The script \<^verbatim>\<open>/p/gone.ts\<close> cannot be read, and the content of \<^verbatim>\<open>/p/package.json\<close> is
  not JSON: each gets the empty list, a message and an entry in the cache.
\<close>

theorem analysis_failure_absorbed_witness:
  "analyzeDependencies exampleWorld goneScript freshManager =
     ([], freshManager\<lparr>dependencyCache := [''/p/gone.ts'' \<mapsto> []],
            trace := [ReadFile ''/p/gone.ts'',
                      ConsoleError ''Error reading file /p/gone.ts:'' (FsError ''ENOENT''),
                      CacheSet ''/p/gone.ts'']\<rparr>)
   \<and> analyzeDependencies exampleWorld brokenManifest freshManager =
     ([], freshManager\<lparr>dependencyCache := [''/p/package.json'' \<mapsto> []],
            trace := [ConsoleError ''Error parsing JSON in /p/package.json:'' SyntaxError,
                      CacheSet ''/p/package.json'']\<rparr>)"
proof -
  have miss: "dependencyCache freshManager (path goneScript) = None"
    "dependencyCache freshManager (path brokenManifest) = None"
    by (simp_all add: freshManager_def)
  have small: "\<not> (size_bytes goneScript > 1024 * 1024 \<or> isBinaryFile goneScript)"
    "\<not> (size_bytes brokenManifest > 1024 * 1024 \<or> isBinaryFile brokenManifest)"
    by (simp_all add: goneScript_def brokenManifest_def fileOf_def isBinaryFile_def
        binaryExtensions_def)
  have l1: "loadContent exampleWorld goneScript
      = (Inl (FsError ''ENOENT''), [ReadFile ''/p/gone.ts''])"
    by (simp add: loadContent_def goneScript_def fileOf_def exampleWorld_def)
  have l2: "loadContent exampleWorld brokenManifest = (Inr ''{not json'', [])"
    by (simp add: loadContent_def brokenManifest_def fileOf_def)
  have p2: "JSON_parse exampleWorld ''{not json'' = Inl SyntaxError"
    by (simp add: exampleWorld_def manifestText_def)
  have t2: "type brokenManifest = JSON" "endsWith (path brokenManifest) ''package.json''"
    by (simp_all add: brokenManifest_def fileOf_def endsWith_def suffix_def)
  have f1: "(\<exists>e. fst (loadContent exampleWorld goneScript) = Inl e)
         \<or> (type goneScript = JSON \<and> endsWith (path goneScript) ''package.json''
            \<and> (\<exists>contents e. fst (loadContent exampleWorld goneScript) = Inr contents
                             \<and> JSON_parse exampleWorld contents = Inl e))"
    using l1 by simp
  have f2: "(\<exists>e. fst (loadContent exampleWorld brokenManifest) = Inl e)
         \<or> (type brokenManifest = JSON \<and> endsWith (path brokenManifest) ''package.json''
            \<and> (\<exists>contents e. fst (loadContent exampleWorld brokenManifest) = Inr contents
                             \<and> JSON_parse exampleWorld contents = Inl e))"
    using l2 p2 t2 by simp
  from analysis_failure_absorbed [OF miss(1) small(1) f1, of "[]" "\<lparr>nodes = [], edges = []\<rparr>"]
  obtain ev1 where a1: "analyzeDependencies exampleWorld goneScript freshManager =
      ([], freshManager
             \<lparr>dependencyCache := (dependencyCache freshManager)(path goneScript \<mapsto> []),
              trace := trace freshManager @ ev1 @ [CacheSet (path goneScript)]\<rparr>)"
    by blast
  from analysis_failure_absorbed [OF miss(2) small(2) f2, of "[]" "\<lparr>nodes = [], edges = []\<rparr>"]
  obtain ev2 where a2: "analyzeDependencies exampleWorld brokenManifest freshManager =
      ([], freshManager
             \<lparr>dependencyCache := (dependencyCache freshManager)(path brokenManifest \<mapsto> []),
              trace := trace freshManager @ ev2 @ [CacheSet (path brokenManifest)]\<rparr>)"
    by blast
  have e1: "trace (snd (analyzeDependencies exampleWorld goneScript freshManager)) =
      [ReadFile ''/p/gone.ts'', ConsoleError ''Error reading file /p/gone.ts:'' (FsError ''ENOENT''),
       CacheSet ''/p/gone.ts'']"
    using miss(1) small(1) l1
    by (simp add: analyzeDependencies_def cacheSet_def logged_def)
      (simp add: goneScript_def fileOf_def freshManager_def)
  have e2: "trace (snd (analyzeDependencies exampleWorld brokenManifest freshManager)) =
      [ConsoleError ''Error parsing JSON in /p/package.json:'' SyntaxError,
       CacheSet ''/p/package.json'']"
    using miss(2) small(2) l2 p2 t2
    by (simp add: analyzeDependencies_def cacheSet_def logged_def extractByType_def
        extractJSONDependencies_def)
      (simp add: brokenManifest_def fileOf_def freshManager_def)
  from a1 e1 have r1: "analyzeDependencies exampleWorld goneScript freshManager =
     ([], freshManager\<lparr>dependencyCache := [''/p/gone.ts'' \<mapsto> []],
            trace := [ReadFile ''/p/gone.ts'',
                      ConsoleError ''Error reading file /p/gone.ts:'' (FsError ''ENOENT''),
                      CacheSet ''/p/gone.ts'']\<rparr>)"
    by (simp add: goneScript_def fileOf_def freshManager_def)
  from a2 e2 have r2: "analyzeDependencies exampleWorld brokenManifest freshManager =
     ([], freshManager\<lparr>dependencyCache := [''/p/package.json'' \<mapsto> []],
            trace := [ConsoleError ''Error parsing JSON in /p/package.json:'' SyntaxError,
                      CacheSet ''/p/package.json'']\<rparr>)"
    by (simp add: brokenManifest_def fileOf_def freshManager_def)
  from r1 r2 show ?thesis by simp
qed

section \<open>Graph builder: the edges stay within the nodes\<close>

lemma in_set_updateD:
  "(k', v') \<in> set (AList.update k v al) \<Longrightarrow> (k', v') = (k, v) \<or> (k', v') \<in> set al"
  by (induction al) (auto split: if_splits)

lemma nodes_addEdges [simp]: "nodes (addEdges p deps g) = nodes g"
  by (induction deps arbitrary: g) (auto split: option.splits)

lemma keys_edges_addEdges [simp]:
  "fst ` set (edges (addEdges p deps g)) = fst ` set (edges g)"
proof (induction deps arbitrary: g)
  case Nil
  show ?case by simp
next
  case (Cons d deps)
  have "fst ` set (AList.update p v (edges g)) = fst ` set (edges g)"
    if "map_of (edges g) p = Some targets" for v targets
    using that by (auto simp: dom_update dest: map_of_SomeD intro: rev_image_eqI)
  then show ?case
    by (auto simp: Cons.IH split: option.splits)
qed

lemma targetsWithin_addEdges:
  "targetsWithin g \<Longrightarrow> targetsWithin (addEdges p deps g)"
proof (induction deps arbitrary: g)
  case Nil
  then show ?case by simp
next
  case (Cons d deps)
  have "targetsWithin (g\<lparr>edges := AList.update p (AList.update (target d) d targets) (edges g)\<rparr>)"
    if has: "map_of (nodes g) (target d) \<noteq> None" and some: "map_of (edges g) p = Some targets"
    for targets
  proof -
    from has have node: "target d \<in> fst ` set (nodes g)"
      by (metis domIff dom_map_of_conv_image_fst)
    from some have old: "(p, targets) \<in> set (edges g)"
      by (rule map_of_SomeD)
    show ?thesis
      unfolding targetsWithin_def
    proof (clarsimp, intro conjI)
      fix s ts t dep
      assume st: "(s, ts) \<in> set (AList.update p (AList.update (target d) d targets) (edges g))"
        and td: "(t, dep) \<in> set ts"
      from st consider "ts = AList.update (target d) d targets" | "(s, ts) \<in> set (edges g)"
        by (auto dest: in_set_updateD)
      then have "t \<in> fst ` set (nodes g) \<and> target dep = t"
      proof cases
        case 1
        with td consider "(t, dep) = (target d, d)" | "(t, dep) \<in> set targets"
          by (auto dest: in_set_updateD)
        then show ?thesis
        proof cases
          case 1
          with node show ?thesis by simp
        next
          case 2
          with old Cons.prems show ?thesis
            by (fastforce simp: targetsWithin_def)
        qed
      next
        case 2
        with td Cons.prems show ?thesis
          by (fastforce simp: targetsWithin_def)
      qed
      then show "t \<in> fst ` set (nodes g)" and "target dep = t" by simp_all
    qed
  qed
  with Cons.prems show ?case
    by (auto intro!: Cons.IH split: option.splits)
qed

lemma processFiles_invariant:
  "processFiles w files g this = (g', this') \<Longrightarrow> targetsWithin g
     \<Longrightarrow> targetsWithin g' \<and> nodes g' = nodes g \<and> fst ` set (edges g') = fst ` set (edges g)"
proof (induction files arbitrary: g this)
  case Nil
  then show ?case by simp
next
  case (Cons f files)
  obtain deps this1 where a: "analyzeDependencies w f this = (deps, this1)"
    by (cases "analyzeDependencies w f this")
  with Cons.prems have "processFiles w files (addEdges (path f) deps g) this1 = (g', this')"
    by simp
  from Cons.IH [OF this targetsWithin_addEdges [OF Cons.prems(2)]] show ?case
    by simp
qed

lemma addNodes_keys:
  "fst ` set (nodes (addNodes files g)) = fst ` set (nodes g) \<union> path ` set files
   \<and> fst ` set (edges (addNodes files g)) = fst ` set (edges g) \<union> path ` set files"
  by (induction files arbitrary: g) (auto simp: dom_update)

lemma addNodes_empty_targets:
  "\<forall>(s, targets) \<in> set (edges g). targets = []
     \<Longrightarrow> \<forall>(s, targets) \<in> set (edges (addNodes files g)). targets = []"
proof (induction files arbitrary: g)
  case Nil
  then show ?case by simp
next
  case (Cons f files)
  let ?g = "g\<lparr>nodes := AList.update (path f) f (nodes g),
               edges := AList.update (path f) [] (edges g)\<rparr>"
  have "\<forall>(s, targets) \<in> set (edges ?g). targets = []"
    using Cons.prems by (auto dest: in_set_updateD)
  from Cons.IH [OF this] show ?case
    by simp
qed

lemma targetsWithin_addNodes: "targetsWithin (addNodes files \<lparr>nodes = [], edges = []\<rparr>)"
proof -
  have "\<forall>(s, targets) \<in> set (edges (addNodes files \<lparr>nodes = [], edges = []\<rparr>)). targets = []"
    by (rule addNodes_empty_targets) simp
  then show ?thesis
    by (fastforce simp: targetsWithin_def)
qed

text \<open>
  C2. In the graph that \<^verbatim>\<open>buildDependencyGraph\<close> returns, the keys of \<^verbatim>\<open>nodes\<close> and the keys
  of \<^verbatim>\<open>edges\<close> are the paths of the catalog; so the source of every edge is a file that
  was added as a node. Every target recorded under a source is a key of \<^verbatim>\<open>nodes\<close>, and it
  is the target of the dependency stored there.
\<close>

theorem buildDependencyGraph_edges_within_nodes:
  assumes "buildDependencyGraph w projectStructure this = (graph, this')"
  shows "fst ` set (nodes graph) = path ` set (allFiles projectStructure)
     \<and> fst ` set (edges graph) = path ` set (allFiles projectStructure)
     \<and> (\<forall>(s, targets) \<in> set (edges graph).
           s \<in> fst ` set (nodes graph)
           \<and> (\<forall>(t, dep) \<in> set targets. t \<in> fst ` set (nodes graph) \<and> target dep = t))"
proof -
  let ?g0 = "addNodes (allFiles projectStructure) \<lparr>nodes = [], edges = []\<rparr>"
  from assms have "processFiles w (allFiles projectStructure) ?g0 this = (graph, this')"
    by (simp add: buildDependencyGraph_def)
  from processFiles_invariant [OF this targetsWithin_addNodes]
  have inv: "targetsWithin graph" and n: "nodes graph = nodes ?g0"
    and e: "fst ` set (edges graph) = fst ` set (edges ?g0)"
    by simp_all
  have k: "fst ` set (nodes ?g0) = path ` set (allFiles projectStructure)"
    "fst ` set (edges ?g0) = path ` set (allFiles projectStructure)"
    using addNodes_keys [of "allFiles projectStructure" "\<lparr>nodes = [], edges = []\<rparr>"]
    by simp_all
  from inv n e k show ?thesis
    unfolding targetsWithin_def by (auto simp: rev_image_eqI) 
qed


lemma addEdges_no_target:
  "\<forall>dep \<in> set deps. map_of (nodes g) (target dep) = None \<Longrightarrow> addEdges p deps g = g"
  by (induction deps arbitrary: g) auto

lemma edges_addEdges_other:
  "p \<noteq> q \<Longrightarrow> map_of (edges (addEdges p deps g)) q = map_of (edges g) q"
  by (induction deps arbitrary: g) (auto simp: update_conv' split: option.splits)

lemma map_of_edges_addNodes:
  "map_of (edges (addNodes files g)) p =
     (if p \<in> path ` set files then Some [] else map_of (edges g) p)"
  by (induction files arbitrary: g) (auto simp: update_conv')

lemma analyzeDependencies_cache_kept:
  "analyzeDependencies w f this = (deps, this') \<Longrightarrow> dependencyCache this p = Some ds
     \<Longrightarrow> dependencyCache this' p = Some ds"
  by (auto simp: analyzeDependencies_def cacheSet_def logged_def
      split: option.splits if_splits sum.splits prod.splits)

lemma analyzeDependencies_cached:
  "analyzeDependencies w f this = (deps, this') \<Longrightarrow> dependencyCache this' (path f) = Some deps"
  by (auto simp: analyzeDependencies_def cacheSet_def logged_def
      split: option.splits if_splits sum.splits prod.splits)

lemma processFiles_cache_kept:
  "processFiles w files g this = (g', this') \<Longrightarrow> dependencyCache this p = Some ds
     \<Longrightarrow> dependencyCache this' p = Some ds"
proof (induction files arbitrary: g this)
  case Nil
  then show ?case by simp
next
  case (Cons f files)
  obtain deps this1 where a: "analyzeDependencies w f this = (deps, this1)"
    by (cases "analyzeDependencies w f this")
  with Cons.prems(1)
  have rest: "processFiles w files (addEdges (path f) deps g) this1 = (g', this')"
    by simp
  from analyzeDependencies_cache_kept [OF a Cons.prems(2)] show ?case
    by (rule Cons.IH [OF rest])
qed

lemma processFiles_cached:
  "processFiles w files g this = (g', this') \<Longrightarrow> file \<in> set files
     \<Longrightarrow> \<exists>ds. dependencyCache this' (path file) = Some ds"
proof (induction files arbitrary: g this)
  case Nil
  then show ?case by simp
next
  case (Cons f files)
  obtain deps this1 where a: "analyzeDependencies w f this = (deps, this1)"
    by (cases "analyzeDependencies w f this")
  with Cons.prems(1)
  have rest: "processFiles w files (addEdges (path f) deps g) this1 = (g', this')"
    by simp
  show ?case
  proof (cases "file = f")
    case True
    with processFiles_cache_kept [OF rest analyzeDependencies_cached [OF a]] show ?thesis
      by blast
  next
    case False
    with Cons.prems(2) have "file \<in> set files" by simp
    with rest show ?thesis by (rule Cons.IH)
  qed
qed

lemma processFiles_no_matching_target:
  "processFiles w files g this = (g', this') \<Longrightarrow> dependencyCache this' p = Some ds
     \<Longrightarrow> \<forall>dep \<in> set ds. map_of (nodes g) (target dep) = None
     \<Longrightarrow> map_of (edges g') p = map_of (edges g) p"
proof (induction files arbitrary: g this)
  case Nil
  then show ?case by simp
next
  case (Cons f files)
  obtain deps this1 where a: "analyzeDependencies w f this = (deps, this1)"
    by (cases "analyzeDependencies w f this")
  with Cons.prems(1)
  have rest: "processFiles w files (addEdges (path f) deps g) this1 = (g', this')"
    by simp
  have step: "map_of (edges (addEdges (path f) deps g)) p = map_of (edges g) p"
  proof (cases "path f = p")
    case True
    with processFiles_cache_kept [OF rest analyzeDependencies_cached [OF a]] Cons.prems(2)
    have "deps = ds" by simp
    with Cons.prems(3) have "addEdges (path f) deps g = g"
      by (intro addEdges_no_target) simp
    then show ?thesis by simp
  next
    case False
    then show ?thesis by (rule edges_addEdges_other)
  qed
  from Cons.prems(3) have "\<forall>dep \<in> set ds. map_of (nodes (addEdges (path f) deps g)) (target dep) = None"
    by simp
  from Cons.IH [OF rest Cons.prems(2) this] step show ?case
    by simp
qed

text \<open>
  C9, amended. Every file of the catalog has an entry in \<^verbatim>\<open>edges\<close>. The list that the
  analysis returns for the file is the entry of the cache for its path after the build
  (every call for that path returned it); when no dependency of that list has a target
  among the keys of \<^verbatim>\<open>nodes\<close>, the entry of the file in \<^verbatim>\<open>edges\<close> is the empty map: the file
  is present, without outgoing edges.
\<close>

theorem buildDependencyGraph_no_match_empty_entry:
  assumes build: "buildDependencyGraph w projectStructure this = (graph, this')"
      and mem: "file \<in> set (allFiles projectStructure)"
  shows "\<exists>dependencies targets.
           dependencyCache this' (path file) = Some dependencies
         \<and> analyzeDependencies w file this' = (dependencies, this')
         \<and> map_of (edges graph) (path file) = Some targets
         \<and> ((\<forall>dep \<in> set dependencies. map_of (nodes graph) (target dep) = None)
               \<longrightarrow> targets = [])"
proof -
  let ?g0 = "addNodes (allFiles projectStructure) \<lparr>nodes = [], edges = []\<rparr>"
  from build have run: "processFiles w (allFiles projectStructure) ?g0 this = (graph, this')"
    by (simp add: buildDependencyGraph_def)
  from processFiles_cached [OF run mem] obtain ds where
    ds: "dependencyCache this' (path file) = Some ds"
    by blast
  then have again: "analyzeDependencies w file this' = (ds, this')"
    by (simp add: analyzeDependencies_def)
  from processFiles_invariant [OF run targetsWithin_addNodes]
  have n: "nodes graph = nodes ?g0" and k: "fst ` set (edges graph) = fst ` set (edges ?g0)"
    by simp_all
  from mem have "path file \<in> fst ` set (edges ?g0)"
    using addNodes_keys [of "allFiles projectStructure" "\<lparr>nodes = [], edges = []\<rparr>"]
    by simp
  with k have "path file \<in> fst ` set (edges graph)"
    by simp
  then obtain targets where t: "map_of (edges graph) (path file) = Some targets"
    by (metis domD dom_map_of_conv_image_fst)
  have "targets = []" if "\<forall>dep \<in> set ds. map_of (nodes graph) (target dep) = None"
  proof -
    from that n have "\<forall>dep \<in> set ds. map_of (nodes ?g0) (target dep) = None"
      by simp
    from processFiles_no_matching_target [OF run ds this] mem t show ?thesis
      by (simp add: map_of_edges_addNodes)
  qed
  with ds again t show ?thesis
    by blast
qed


lemma docA_extraction:
  "extractMarkdownDependencies exampleWorld (Some ''/p'') ''/p/a.md'' ''[b](b.md)'' []
     = [\<lparr>source = ''/p/a.md'', target = ''/p/b.md'', dtype = Reference,
         lineNumbers = Some [0], isExternal = False\<rparr>]"
  by code_simp

lemma docB_extraction:
  "extractMarkdownDependencies exampleWorld (Some ''/p'') ''/p/b.md'' ''no links'' [] = []"
  by code_simp

lemma docs_graph:
  "fst (buildDependencyGraph exampleWorld (projectOf [docA, docB]) freshManager) =
     \<lparr>nodes = [(''/p/a.md'', docA), (''/p/b.md'', docB)],
      edges = [(''/p/a.md'', [(''/p/b.md'',
                  \<lparr>source = ''/p/a.md'', target = ''/p/b.md'', dtype = Reference,
                   lineNumbers = Some [0], isExternal = False\<rparr>)]),
               (''/p/b.md'', [])]\<rparr>"
  by (simp add: buildDependencyGraph_def projectOf_def analyzeDependencies_def docA_def docB_def fileOf_def
      freshManager_def isBinaryFile_def binaryExtensions_def loadContent_def extractByType_def
      docA_extraction docB_extraction cacheSet_def logged_def)

lemma smallDoc_graph:
  "fst (buildDependencyGraph exampleWorld (projectOf [smallDoc]) freshManager) =
     \<lparr>nodes = [(''/p/README.md'', smallDoc)], edges = [(''/p/README.md'', [])]\<rparr>"
  by (simp add: buildDependencyGraph_def projectOf_def smallDoc_analysis) (simp add: smallDoc_def fileOf_def)

text \<open>
  C9. The claim: such a file has no entry in \<^verbatim>\<open>edges\<close>. The first loop of the builder
  gives every file of the catalog an empty map of edges, and nothing removes it. Here
  the only dependency of \<^verbatim>\<open>/p/README.md\<close> has a target that is no node, and the file has
  its entry.
\<close>

theorem buildDependencyGraph_no_match_counterexample:
  "fst (analyzeDependencies exampleWorld smallDoc freshManager)
     = [\<lparr>source = ''/p/README.md'', target = ''/p/index.md'', dtype = Reference,
         lineNumbers = Some [0], isExternal = False\<rparr>]
   \<and> map_of (nodes (fst (buildDependencyGraph exampleWorld (projectOf [smallDoc]) freshManager)))
        ''/p/index.md'' = None
   \<and> map_of (edges (fst (buildDependencyGraph exampleWorld (projectOf [smallDoc]) freshManager)))
        ''/p/README.md'' = Some []"
  by (simp add: smallDoc_graph smallDoc_analysis)

lemma smallDoc_cache:
  "dependencyCache (snd (buildDependencyGraph exampleWorld (projectOf [smallDoc]) freshManager))
     ''/p/README.md''
     = Some [\<lparr>source = ''/p/README.md'', target = ''/p/index.md'', dtype = Reference,
              lineNumbers = Some [0], isExternal = False\<rparr>]"
  by (simp add: buildDependencyGraph_def projectOf_def smallDoc_analysis)

text \<open>
  The catalog with the file \<^verbatim>\<open>/p/README.md\<close> alone: its only dependency has the target
  \<^verbatim>\<open>/p/index.md\<close>, which is no node, and its entry in \<^verbatim>\<open>edges\<close> is the empty map.
\<close>

theorem buildDependencyGraph_no_match_empty_entry_witness:
  "smallDoc \<in> set (allFiles (projectOf [smallDoc]))
   \<and> dependencyCache (snd (buildDependencyGraph exampleWorld (projectOf [smallDoc]) freshManager))
        (path smallDoc)
     = Some [\<lparr>source = ''/p/README.md'', target = ''/p/index.md'', dtype = Reference,
              lineNumbers = Some [0], isExternal = False\<rparr>]
   \<and> map_of (nodes (fst (buildDependencyGraph exampleWorld (projectOf [smallDoc]) freshManager)))
        ''/p/index.md'' = None
   \<and> map_of (edges (fst (buildDependencyGraph exampleWorld (projectOf [smallDoc]) freshManager)))
        (path smallDoc) = Some []"
proof -
  obtain graph this' where
    build: "buildDependencyGraph exampleWorld (projectOf [smallDoc]) freshManager = (graph, this')"
    by (cases "buildDependencyGraph exampleWorld (projectOf [smallDoc]) freshManager")
  have mem: "smallDoc \<in> set (allFiles (projectOf [smallDoc]))"
    by (simp add: projectOf_def)
  have p: "path smallDoc = ''/p/README.md''"
    by (simp add: smallDoc_def fileOf_def)
  have cached: "dependencyCache this' (path smallDoc)
      = Some [\<lparr>source = ''/p/README.md'', target = ''/p/index.md'', dtype = Reference,
               lineNumbers = Some [0], isExternal = False\<rparr>]"
    using smallDoc_cache build by (simp add: p)
  have graph: "graph = \<lparr>nodes = [(''/p/README.md'', smallDoc)], edges = [(''/p/README.md'', [])]\<rparr>"
    using smallDoc_graph build by simp
  then have noNode: "map_of (nodes graph) ''/p/index.md'' = None"
    by simp
  from buildDependencyGraph_no_match_empty_entry [OF build mem] cached noNode
  have entry: "map_of (edges graph) (path smallDoc) = Some []"
    by auto
  from build have g: "fst (buildDependencyGraph exampleWorld (projectOf [smallDoc]) freshManager)
      = graph"
    and t: "snd (buildDependencyGraph exampleWorld (projectOf [smallDoc]) freshManager) = this'"
    by simp_all
  show ?thesis
    unfolding g t by (intro conjI mem cached noNode entry)
qed

text \<open>
  The two-file catalog: one edge, from \<^verbatim>\<open>/p/a.md\<close> to \<^verbatim>\<open>/p/b.md\<close>, and both are nodes.
\<close>

theorem buildDependencyGraph_edges_within_nodes_witness:
  "edges (fst (buildDependencyGraph exampleWorld (projectOf [docA, docB]) freshManager))
     = [(''/p/a.md'', [(''/p/b.md'',
            \<lparr>source = ''/p/a.md'', target = ''/p/b.md'', dtype = Reference,
             lineNumbers = Some [0], isExternal = False\<rparr>)]),
        (''/p/b.md'', [])]
   \<and> fst ` set (nodes (fst (buildDependencyGraph exampleWorld (projectOf [docA, docB]) freshManager)))
     = {''/p/a.md'', ''/p/b.md''}
   \<and> ''/p/b.md''
     \<in> fst ` set (nodes (fst (buildDependencyGraph exampleWorld (projectOf [docA, docB]) freshManager)))"
proof -
  obtain graph this' where
    build: "buildDependencyGraph exampleWorld (projectOf [docA, docB]) freshManager = (graph, this')"
    by (cases "buildDependencyGraph exampleWorld (projectOf [docA, docB]) freshManager")
  then have graph: "graph = fst (buildDependencyGraph exampleWorld (projectOf [docA, docB]) freshManager)"
    by simp
  note inv = buildDependencyGraph_edges_within_nodes [OF build]
  from inv have "fst ` set (nodes graph) = path ` set (allFiles (projectOf [docA, docB]))"
    by blast
  then have keys: "fst ` set (nodes graph) = {''/p/a.md'', ''/p/b.md''}"
    by (simp add: projectOf_def docA_def docB_def fileOf_def)
  have edge: "(''/p/a.md'', [(''/p/b.md'',
            \<lparr>source = ''/p/a.md'', target = ''/p/b.md'', dtype = Reference,
             lineNumbers = Some [0], isExternal = False\<rparr>)]) \<in> set (edges graph)"
    by (simp add: graph docs_graph)
  from inv edge have "''/p/b.md'' \<in> fst ` set (nodes graph)"
    by fastforce
  with keys show ?thesis
    by (simp add: graph [symmetric]) (simp add: graph docs_graph)
qed

section \<open>Markdown: an image reference is a link too\<close>

text \<open>
  The equations of \<open>rmatch\<close> and \<open>matchAll\<close> are applied by hand from here on; the lemmas below
  give what the two markdown patterns do on an image reference.
\<close>

declare matchAll.simps [simp del]

declare rmatch.simps [simp del]

declare openBefore.simps [simp del]

lemma rmatch_Chr:
  "rmatch (Chr c) (s, caps) = (case s of [] \<Rightarrow> [] | x # xs \<Rightarrow> if x = c then [(xs, caps)] else [])"
  by (simp add: Chr_def rmatch.simps(2) split: list.splits)

lemma rmatch_Star_Atom_Nil: "rmatch (Star (Atom P)) ([], caps) = [([], caps)]"
  by (subst rmatch.simps(5)) (simp add: rmatch.simps(2))

lemma rmatch_Star_Atom_Cons:
  "rmatch (Star (Atom P)) (x # xs, caps) =
     (if P x then rmatch (Star (Atom P)) (xs, caps) else []) @ [(x # xs, caps)]"
  by (subst rmatch.simps(5)) (simp add: rmatch.simps(2))

lemma rmatch_Star_Atom_length:
  "st \<in> set (rmatch (Star (Atom P)) (s, caps)) \<Longrightarrow> length (fst st) \<le> length s \<and> snd st = caps"
proof (induction s)
  case Nil
  then show ?case by (simp add: rmatch_Star_Atom_Nil)
next
  case (Cons x xs)
  then show ?case
    by (auto simp: rmatch_Star_Atom_Cons split: if_splits)
qed

lemma rejects_Chr: "\<not> P c \<Longrightarrow> rejects P (Seq (Chr c) r)"
  by (auto simp: rejects_def rmatch_Chr rmatch.simps(3))

lemma star_then:
  assumes "rejects P r"
  shows "concat (map (rmatch r)
            (map (\<lambda>st'. (fst st', snd st' @ [acc @ take (length s - length (fst st')) s]))
               (rmatch (Star (Atom P)) (s, caps))))
         = rmatch r (dropWhile P s, caps @ [acc @ takeWhile P s])"
proof (induction s arbitrary: acc)
  case Nil
  show ?case by (simp add: rmatch_Star_Atom_Nil)
next
  case (Cons x xs)
  show ?case
  proof (cases "P x")
    case False
    then show ?thesis by (simp add: rmatch_Star_Atom_Cons)
  next
    case True
    let ?f = "\<lambda>st'. (fst st', snd st' @ [acc @ take (length (x # xs) - length (fst st')) (x # xs)])"
    let ?g = "\<lambda>st'. (fst st', snd st' @ [(acc @ [x]) @ take (length xs - length (fst st')) xs])"
    have last: "rmatch r (?f (x # xs, caps)) = []"
      using assms True by (simp add: rejects_def)
    have eq: "map ?f (rmatch (Star (Atom P)) (xs, caps)) = map ?g (rmatch (Star (Atom P)) (xs, caps))"
      by (rule map_cong) (auto dest!: rmatch_Star_Atom_length simp: Suc_diff_le)
    have "rmatch (Star (Atom P)) (x # xs, caps) = rmatch (Star (Atom P)) (xs, caps) @ [(x # xs, caps)]"
      using True by (simp add: rmatch_Star_Atom_Cons)
    then have "concat (map (rmatch r) (map ?f (rmatch (Star (Atom P)) (x # xs, caps))))
        = concat (map (rmatch r) (map ?f (rmatch (Star (Atom P)) (xs, caps)))) @ rmatch r (?f (x # xs, caps))"
      by (simp only: map_append concat_append list.map concat.simps append_Nil2)
    also have "\<dots> = concat (map (rmatch r) (map ?g (rmatch (Star (Atom P)) (xs, caps))))"
      by (simp only: eq last append_Nil2)
    also have "\<dots> = rmatch r (dropWhile P xs, caps @ [(acc @ [x]) @ takeWhile P xs])"
      by (rule Cons.IH)
    finally show ?thesis
      using True by simp
  qed
qed

lemma seq_group_star:
  "rejects P r \<Longrightarrow>
     rmatch (Seq (Group (Star (Atom P))) r) (s, caps) = rmatch r (dropWhile P s, caps @ [takeWhile P s])"
  using star_then [of P r "[]" s caps] by (simp add: rmatch.simps(3,6))

lemma seq_group_plus:
  assumes "rejects P r"
  shows "rmatch (Seq (Group (Plus (Atom P))) r) (s, caps) =
     (if takeWhile P s = [] then [] else rmatch r (dropWhile P s, caps @ [takeWhile P s]))"
proof (cases s)
  case Nil
  then show ?thesis by (simp add: Plus_def rmatch.simps(2,3,6))
next
  case (Cons x xs)
  show ?thesis
  proof (cases "P x")
    case False
    with Cons show ?thesis by (simp add: Plus_def rmatch.simps(2,3,6))
  next
    case True
    let ?f = "\<lambda>st'. (fst st', snd st' @ [take (length (x # xs) - length (fst st')) (x # xs)])"
    let ?g = "\<lambda>st'. (fst st', snd st' @ [[x] @ take (length xs - length (fst st')) xs])"
    have eq: "map ?f (rmatch (Star (Atom P)) (xs, caps)) = map ?g (rmatch (Star (Atom P)) (xs, caps))"
      by (rule map_cong) (auto dest!: rmatch_Star_Atom_length simp: Suc_diff_le)
    have "rmatch (Plus (Atom P)) (x # xs, caps) = rmatch (Star (Atom P)) (xs, caps)"
      using True by (simp add: Plus_def rmatch.simps(2,3))
    then have "rmatch (Seq (Group (Plus (Atom P))) r) (x # xs, caps)
        = concat (map (rmatch r) (map ?f (rmatch (Star (Atom P)) (xs, caps))))"
      by (simp add: rmatch.simps(3,6))
    also have "\<dots> = concat (map (rmatch r) (map ?g (rmatch (Star (Atom P)) (xs, caps))))"
      by (simp only: eq)
    also have "\<dots> = rmatch r (dropWhile P xs, caps @ [[x] @ takeWhile P xs])"
      by (rule star_then [OF assms])
    finally show ?thesis
      using True Cons by simp
  qed
qed


lemma Str_Nil: "Str [] = Eps"
  by (simp add: Str_def Seqs_def)

lemma Str_Cons: "Str (c # cs) = Seq (Chr c) (Str cs)"
  by (simp add: Str_def Seqs_def)

lemma rmatch_Seq_Str_Nil: "rmatch (Seq (Str []) r) st = rmatch r st"
  by (simp add: Str_Nil rmatch.simps(1,3))

lemma rmatch_Seq_Str_Cons:
  "rmatch (Seq (Str (c # cs)) r) (s, caps) =
     (case s of [] \<Rightarrow> [] | x # xs \<Rightarrow> if x = c then rmatch (Seq (Str cs) r) (xs, caps) else [])"
  by (simp add: Str_Cons rmatch.simps(3) rmatch_Chr split: list.splits)

lemma rmatch_Seq_Chr:
  "rmatch (Seq (Chr c) r) (s, caps) =
     (case s of [] \<Rightarrow> [] | x # xs \<Rightarrow> if x = c then rmatch r (xs, caps) else [])"
  by (simp add: rmatch.simps(3) rmatch_Chr split: list.splits)

lemma rejects_Str: "\<not> P c \<Longrightarrow> rejects P (Seq (Str (c # cs)) r)"
  by (auto simp: rejects_def rmatch_Seq_Str_Cons)

lemma mdImagePattern_unfold:
  "mdImagePattern =
     Seq (Str ''!['')
       (Seq (Group (Star (Atom (\<lambda>x. x \<notin> set '']''))))
          (Seq (Str ''](''  )
             (Seq (Group (Plus (Atom (\<lambda>x. x \<notin> set '')''))))
                (Seq (Chr (CHR '')'')) Eps))))"
  by (simp add: mdImagePattern_def Seqs_def NoneOf_def)

lemma mdLinkPattern_unfold:
  "mdLinkPattern =
     Seq (Chr (CHR ''[''))
       (Seq (Group (Plus (Atom (\<lambda>x. x \<notin> set '']''))))
          (Seq (Str ''](''  )
             (Seq (Group (Plus (Atom (\<lambda>x. x \<notin> set '')''))))
                (Seq (Chr (CHR '')'')) Eps))))"
  by (simp add: mdLinkPattern_def Seqs_def NoneOf_def)

lemma takeWhile_until:
  "\<forall>x \<in> set xs. P x \<Longrightarrow> \<not> P c \<Longrightarrow> takeWhile P (xs @ c # ys) = xs"
  by (induction xs) auto

lemma dropWhile_until:
  "\<forall>x \<in> set xs. P x \<Longrightarrow> \<not> P c \<Longrightarrow> dropWhile P (xs @ c # ys) = c # ys"
  by (induction xs) auto

lemma matchAll_miss: "exec r (c # s) = None \<Longrightarrow> matchAll r (c # s) = matchAll r s"
  by (subst matchAll.simps) simp

lemma matchAll_hit:
  "rmatch r (m @ rest, []) = (rest, caps) # others \<Longrightarrow> m \<noteq> []
     \<Longrightarrow> matchAll r (m @ rest) = (m, caps) # matchAll r rest"
  by (subst matchAll.simps) (simp add: exec_def)

lemma dropWhile_head: "dropWhile P u = z # zs \<Longrightarrow> \<not> P z"
  using hd_dropWhile [of P u] by simp

lemma target_part:
  "rmatch (Seq (Str ''](''  ) (Seq (Group (Plus (Atom (\<lambda>x. x \<noteq> CHR '')''))))
                                 (Seq (Chr (CHR '')'')) Eps))) (d, caps)
   = (if prefix ''](''  d \<and> takeWhile (\<lambda>x. x \<noteq> CHR '')'') (drop 2 d) \<noteq> []
         \<and> dropWhile (\<lambda>x. x \<noteq> CHR '')'') (drop 2 d) \<noteq> []
      then [(tl (dropWhile (\<lambda>x. x \<noteq> CHR '')'') (drop 2 d)),
             caps @ [takeWhile (\<lambda>x. x \<noteq> CHR '')'') (drop 2 d)])]
      else [])"
proof -
  have rej: "rejects (\<lambda>x. x \<noteq> CHR '')'') (Seq (Chr (CHR '')'')) Eps)"
    by (rule rejects_Chr) simp
  have plus: "rmatch (Seq (Group (Plus (Atom (\<lambda>x. x \<noteq> CHR '')''))))
                        (Seq (Chr (CHR '')'')) Eps)) (u, cs)
      = (if takeWhile (\<lambda>x. x \<noteq> CHR '')'') u = [] then []
         else rmatch (Seq (Chr (CHR '')'')) Eps)
                (dropWhile (\<lambda>x. x \<noteq> CHR '')'') u, cs @ [takeWhile (\<lambda>x. x \<noteq> CHR '')'') u]))"
    for u cs
    by (rule seq_group_plus [OF rej])
  have closing: "rmatch (Seq (Chr (CHR '')'')) Eps) (dropWhile (\<lambda>x. x \<noteq> CHR '')'') u, cs)
      = (if dropWhile (\<lambda>x. x \<noteq> CHR '')'') u = [] then []
         else [(tl (dropWhile (\<lambda>x. x \<noteq> CHR '')'') u), cs)])" for u cs
  proof (cases "dropWhile (\<lambda>x. x \<noteq> CHR '')'') u")
    case Nil
    show ?thesis unfolding Nil by (simp add: rmatch_Seq_Chr)
  next
    case (Cons z zs)
    then have "z = CHR '')''"
      using dropWhile_head [of "\<lambda>x. x \<noteq> CHR '')''" u z zs] by simp
    then show ?thesis unfolding Cons by (simp add: rmatch_Seq_Chr rmatch.simps(1))
  qed
  have tail: "rmatch (Seq (Group (Plus (Atom (\<lambda>x. x \<noteq> CHR '')''))))
                        (Seq (Chr (CHR '')'')) Eps)) (u, cs)
      = (if takeWhile (\<lambda>x. x \<noteq> CHR '')'') u \<noteq> [] \<and> dropWhile (\<lambda>x. x \<noteq> CHR '')'') u \<noteq> []
         then [(tl (dropWhile (\<lambda>x. x \<noteq> CHR '')'') u), cs @ [takeWhile (\<lambda>x. x \<noteq> CHR '')'') u])]
         else [])" for u cs
    unfolding plus closing by (simp del: dropWhile_eq_Nil_conv)
  show ?thesis
  proof (cases "prefix ''](''  d")
    case True
    then obtain u where d: "d = CHR '']'' # CHR ''('' # u"
      by (auto simp: prefix_def)
    show ?thesis
      unfolding d by (simp add: rmatch_Seq_Str_Cons rmatch_Seq_Str_Nil tail del: dropWhile_eq_Nil_conv)
  next
    case False
    then show ?thesis
      by (cases d; cases "tl d") (auto simp: rmatch_Seq_Str_Cons)
  qed
qed

lemma mdLinkPattern_shape:
  "rmatch mdLinkPattern (s, caps) =
     (case referenceAt ''['' True s of
        None \<Rightarrow> []
      | Some (label, tgt, rest) \<Rightarrow> [(rest, caps @ [label, tgt])])"
proof -
  let ?rest = "Seq (Str ''](''  )
             (Seq (Group (Plus (Atom (\<lambda>x. x \<noteq> CHR '')''))))
                (Seq (Chr (CHR '')'')) Eps))"
  have unfold: "mdLinkPattern =
      Seq (Chr (CHR ''['')) (Seq (Group (Plus (Atom (\<lambda>x. x \<noteq> CHR '']'')))) ?rest)"
    by (simp add: mdLinkPattern_unfold)
  have rej: "rejects (\<lambda>x. x \<noteq> CHR '']'') ?rest"
    by (rule rejects_Str) simp
  have label: "rmatch (Seq (Group (Plus (Atom (\<lambda>x. x \<noteq> CHR '']'')))) ?rest) (t, cs)
      = (if takeWhile (\<lambda>x. x \<noteq> CHR '']'') t = [] then []
         else rmatch ?rest (dropWhile (\<lambda>x. x \<noteq> CHR '']'') t,
                            cs @ [takeWhile (\<lambda>x. x \<noteq> CHR '']'') t]))" for t cs
    by (rule seq_group_plus [OF rej])
  show ?thesis
  proof (cases s)
    case Nil
    then show ?thesis
      by (simp add: unfold rmatch_Seq_Chr referenceAt_def)
  next
    case (Cons c t)
    then show ?thesis
      unfolding unfold
      by (simp add: rmatch_Seq_Chr label target_part referenceAt_def Let_def
          del: dropWhile_eq_Nil_conv)
  qed
qed

lemma mdImagePattern_shape:
  "rmatch mdImagePattern (s, caps) =
     (case referenceAt ''!['' False s of
        None \<Rightarrow> []
      | Some (label, tgt, rest) \<Rightarrow> [(rest, caps @ [label, tgt])])"
proof -
  let ?rest = "Seq (Str ''](''  )
             (Seq (Group (Plus (Atom (\<lambda>x. x \<noteq> CHR '')''))))
                (Seq (Chr (CHR '')'')) Eps))"
  have unfold: "mdImagePattern =
      Seq (Str ''!['') (Seq (Group (Star (Atom (\<lambda>x. x \<noteq> CHR '']'')))) ?rest)"
    by (simp add: mdImagePattern_unfold)
  have rej: "rejects (\<lambda>x. x \<noteq> CHR '']'') ?rest"
    by (rule rejects_Str) simp
  have label: "rmatch (Seq (Group (Star (Atom (\<lambda>x. x \<noteq> CHR '']'')))) ?rest) (t, cs)
      = rmatch ?rest (dropWhile (\<lambda>x. x \<noteq> CHR '']'') t,
                      cs @ [takeWhile (\<lambda>x. x \<noteq> CHR '']'') t])" for t cs
    by (rule seq_group_star [OF rej])
  show ?thesis
  proof (cases "prefix ''!['' s")
    case True
    then obtain t where s: "s = CHR ''!'' # CHR ''['' # t"
      by (auto simp: prefix_def)
    have opener: "rmatch (Seq (Str ''!['') r) (CHR ''!'' # CHR ''['' # t, cs) = rmatch r (t, cs)"
      for r cs
      by (simp add: rmatch_Seq_Str_Cons rmatch_Seq_Str_Nil)
    show ?thesis
      unfolding unfold s opener label target_part
      by (simp add: referenceAt_def Let_def del: dropWhile_eq_Nil_conv)
  next
    case False
    then show ?thesis
      unfolding unfold
      by (cases s; cases "tl s") (auto simp: rmatch_Seq_Str_Cons referenceAt_def)
  qed
qed

lemma referenceAt_SomeD:
  assumes "referenceAt opener labelled s = Some (label, tgt, rest)"
  shows "s = opener @ label @ ''](''  @ tgt @ '')'' @ rest"
    and "CHR '']'' \<notin> set label" and "CHR '')'' \<notin> set tgt" and "tgt \<noteq> []"
    and "labelled \<longrightarrow> label \<noteq> []"
proof -
  define t where "t = drop (length opener) s"
  define d where "d = dropWhile (\<lambda>x. x \<noteq> CHR '']'') t"
  define u where "u = drop 2 d"
  define e where "e = dropWhile (\<lambda>x. x \<noteq> CHR '')'') u"
  from assms have p: "prefix opener s" and pd: "prefix ''](''  d" and e: "e \<noteq> []"
    and label: "label = takeWhile (\<lambda>x. x \<noteq> CHR '']'') t"
    and tgt: "tgt = takeWhile (\<lambda>x. x \<noteq> CHR '')'') u" and rest: "rest = tl e"
    and ne: "tgt \<noteq> []" and lab: "labelled \<longrightarrow> label \<noteq> []"
    by (auto simp: referenceAt_def Let_def t_def d_def u_def e_def split: if_splits
        simp del: dropWhile_eq_Nil_conv)
  from p have s: "s = opener @ t"
    by (auto simp: prefix_def t_def)
  have t: "t = label @ d"
    by (simp add: label d_def)
  from pd have d: "d = ''](''  @ u"
    by (auto simp: prefix_def u_def)
  have u: "u = tgt @ e"
    by (simp add: tgt e_def)
  from e obtain z where "e = z # rest"
    by (cases e) (auto simp: rest)
  moreover from this have "z = CHR '')''"
    using dropWhile_head [of "\<lambda>x. x \<noteq> CHR '')''" u z rest] by (simp add: e_def)
  ultimately have e': "e = '')'' @ rest"
    by simp
  show "s = opener @ label @ ''](''  @ tgt @ '')'' @ rest"
    by (simp add: s t d u e')
  show "CHR '']'' \<notin> set label"
    unfolding label using set_takeWhileD [of "CHR '']''" "\<lambda>x. x \<noteq> CHR '']''" t] by blast
  show "CHR '')'' \<notin> set tgt"
    unfolding tgt using set_takeWhileD [of "CHR '')''" "\<lambda>x. x \<noteq> CHR '')''" u] by blast
  show "tgt \<noteq> []" by (rule ne)
  show "labelled \<longrightarrow> label \<noteq> []" by (rule lab)
qed

lemma referenceAt_SomeI:
  assumes "CHR '']'' \<notin> set label" and "CHR '')'' \<notin> set tgt" and "tgt \<noteq> []"
    and "labelled \<longrightarrow> label \<noteq> []"
  shows "referenceAt opener labelled (opener @ label @ ''](''  @ tgt @ '')'' @ rest)
         = Some (label, tgt, rest)"
proof -
  have t: "takeWhile (\<lambda>x. x \<noteq> CHR '']'') (label @ CHR '']'' # ''('' @ tgt @ '')'' @ rest) = label"
    and d: "dropWhile (\<lambda>x. x \<noteq> CHR '']'') (label @ CHR '']'' # ''('' @ tgt @ '')'' @ rest)
        = CHR '']'' # ''('' @ tgt @ '')'' @ rest"
    using assms(1) by (auto intro!: takeWhile_until dropWhile_until)
  have t': "takeWhile (\<lambda>x. x \<noteq> CHR '')'') (tgt @ CHR '')'' # rest) = tgt"
    and d': "dropWhile (\<lambda>x. x \<noteq> CHR '')'') (tgt @ CHR '')'' # rest) = CHR '')'' # rest"
    using assms(2) by (auto intro!: takeWhile_until dropWhile_until)
  from t d t' d' assms(3,4) show ?thesis
    by (simp add: referenceAt_def Let_def del: dropWhile_eq_Nil_conv)
qed

lemma referenceAt_extend:
  assumes "referenceAt opener labelled s = Some (label, tgt, rest)"
  shows "referenceAt opener labelled (s @ z) = Some (label, tgt, rest @ z)"
  using referenceAt_SomeD [OF assms]
    referenceAt_SomeI [of label tgt labelled opener "rest @ z"]
  by simp

lemma referenceAt_no_bracket:
  assumes "CHR '']'' \<notin> set s"
  shows "referenceAt opener labelled s = None"
proof (cases "referenceAt opener labelled s")
  case None
  then show ?thesis .
next
  case (Some a)
  then obtain label tgt rest where "referenceAt opener labelled s = Some (label, tgt, rest)"
    by (cases a) auto
  from referenceAt_SomeD(1) [OF this] assms show ?thesis
    by auto
qed

lemma first_occurrence:
  assumes "c \<notin> set a" and "c \<notin> set b" and "a @ c # x = b @ c # y"
  shows "a = b \<and> x = y"
proof -
  have "takeWhile (\<lambda>x. x \<noteq> c) (a @ c # x) = a" "takeWhile (\<lambda>x. x \<noteq> c) (b @ c # y) = b"
    using assms(1,2) by (auto intro!: takeWhile_until)
  with assms(3) have "a = b" by simp
  with assms(3) show ?thesis by simp
qed

lemma referenceAt_later:
  assumes none: "referenceAt opener labelled s = None"
    and notOpen: "\<not> (prefix opener s
        \<and> (labelled \<longrightarrow> takeWhile (\<lambda>x. x \<noteq> CHR '']'') (drop (length opener) s) \<noteq> [])
        \<and> prefix ''](''  (dropWhile (\<lambda>x. x \<noteq> CHR '']'') (drop (length opener) s))
        \<and> CHR '')'' \<notin> set (drop 2 (dropWhile (\<lambda>x. x \<noteq> CHR '']'') (drop (length opener) s))))"
    and opener: "CHR '']'' \<notin> set opener"
      "prefix opener (s @ ''!['' @ alt @ ''](''  @ imagePath @ '')'' @ post) \<Longrightarrow> prefix opener s"
    and alt: "CHR '']'' \<notin> set alt"
    and imagePath: "imagePath \<noteq> []" "CHR '')'' \<notin> set imagePath"
  shows "referenceAt opener labelled (s @ ''!['' @ alt @ ''](''  @ imagePath @ '')'' @ post) = None
     \<or> (CHR '']'' \<notin> set s
        \<and> referenceAt opener labelled (s @ ''!['' @ alt @ ''](''  @ imagePath @ '')'' @ post)
            = Some (drop (length opener) s @ ''!['' @ alt, imagePath, post))"
proof (cases "referenceAt opener labelled (s @ ''!['' @ alt @ ''](''  @ imagePath @ '')'' @ post)")
  case None
  then show ?thesis by simp
next
  case (Some found)
  let ?z = "''!['' @ alt @ ''](''  @ imagePath @ '')'' @ post"
  obtain label tgt rest where found: "referenceAt opener labelled (s @ ?z) = Some (label, tgt, rest)"
    using Some by (cases found) auto
  note D = referenceAt_SomeD [OF found]
  from D(1) have "prefix opener (s @ ?z)"
    by (simp add: prefix_def)
  then have "prefix opener s"
    by (rule opener(2))
  then obtain t where s: "s = opener @ t"
    by (auto simp: prefix_def)
  then have t: "drop (length opener) s = t"
    by simp
  from D(1) s have eq: "t @ ?z = label @ ''](''  @ tgt @ '')'' @ rest"
    by simp
  show ?thesis
  proof (cases "CHR '']'' \<in> set t")
    case True
    then obtain a w where tw: "t = a @ CHR '']'' # w" and a: "CHR '']'' \<notin> set a"
      by (auto dest: split_list_first)
    from eq tw have "a @ CHR '']'' # (w @ ?z) = label @ CHR '']'' # (''('' @ tgt @ '')'' @ rest)"
      by simp
    from first_occurrence [OF a D(2) this]
    have al: "a = label" and w: "w @ ?z = ''('' @ tgt @ '')'' @ rest"
      by simp_all
    from w obtain u where wu: "w = CHR ''('' # u"
      by (cases w) auto
    with w have u: "u @ ?z = tgt @ CHR '')'' # rest"
      by simp
    have ta: "takeWhile (\<lambda>x. x \<noteq> CHR '']'') t = a"
      and da: "dropWhile (\<lambda>x. x \<noteq> CHR '']'') t = CHR '']'' # CHR ''('' # u"
      unfolding tw wu using a by (auto intro!: takeWhile_until dropWhile_until)
    show ?thesis
    proof (cases "CHR '')'' \<in> set u")
      case True
      then obtain b r0 where ub: "u = b @ CHR '')'' # r0" and b: "CHR '')'' \<notin> set b"
        by (auto dest: split_list_first)
      from u ub have "b @ CHR '')'' # (r0 @ ?z) = tgt @ CHR '')'' # rest"
        by simp
      from first_occurrence [OF b D(3) this] have bt: "b = tgt"
        by simp
      have "referenceAt opener labelled (opener @ a @ ''](''  @ b @ '')'' @ r0) = Some (a, b, r0)"
        using a b D(4,5) al bt by (intro referenceAt_SomeI) auto
      with none show ?thesis
        by (simp add: s tw wu ub)
    next
      case False
      with notOpen D(5) show ?thesis
        unfolding t ta da by (simp add: s al)
    qed
  next
    case False
    with opener(1) have noBracket: "CHR '']'' \<notin> set s"
      by (simp add: s)
    have "referenceAt opener labelled (opener @ (t @ ''!['' @ alt) @ ''](''  @ imagePath @ '')'' @ post)
        = Some (t @ ''!['' @ alt, imagePath, post)"
      using False alt imagePath by (intro referenceAt_SomeI) auto
    with noBracket show ?thesis
      by (simp add: s)
  qed
qed

lemma matchAll_no_bracket:
  assumes shape: "\<And>s caps. rmatch r (s, caps) =
      (case referenceAt opener labelled s of
         None \<Rightarrow> []
       | Some (label, tgt, rest) \<Rightarrow> [(rest, caps @ [label, tgt])])"
  shows "CHR '']'' \<notin> set s \<Longrightarrow> matchAll r s = []"
proof (induction s)
  case Nil
  have "exec r [] = None"
    by (simp add: exec_def shape referenceAt_no_bracket)
  then show ?case
    by (subst matchAll.simps) simp
next
  case (Cons c s)
  then have "exec r (c # s) = None"
    by (simp add: exec_def shape referenceAt_no_bracket)
  with Cons show ?case
    by (simp add: matchAll_miss)
qed

lemma matchAll_reference_after:
  assumes shape: "\<And>s caps. rmatch r (s, caps) =
      (case referenceAt opener labelled s of
         None \<Rightarrow> []
       | Some (label, tgt, rest) \<Rightarrow> [(rest, caps @ [label, tgt])])"
    and opens: "\<And>s. opens s \<longleftrightarrow>
        prefix opener s
        \<and> (labelled \<longrightarrow> takeWhile (\<lambda>x. x \<noteq> CHR '']'') (drop (length opener) s) \<noteq> [])
        \<and> prefix ''](''  (dropWhile (\<lambda>x. x \<noteq> CHR '']'') (drop (length opener) s))
        \<and> CHR '')'' \<notin> set (drop 2 (dropWhile (\<lambda>x. x \<noteq> CHR '']'') (drop (length opener) s)))"
    and opener: "CHR '']'' \<notin> set opener"
      "\<And>s z. s \<noteq> [] \<Longrightarrow> prefix opener (s @ CHR ''!'' # z) \<Longrightarrow> prefix opener s"
    and alt: "CHR '']'' \<notin> set alt"
    and imagePath: "imagePath \<noteq> []" "CHR '')'' \<notin> set imagePath"
    and base: "matchAll r ((''!['' @ alt @ ''](''  @ imagePath @ '')'') @ post)
        = (first, [alt, imagePath]) # matchAll r post"
      "suffix first (''!['' @ alt @ ''](''  @ imagePath @ '')'')"
    and closed: "\<not> openBefore r opens pre"
  shows "\<exists>m label. suffix first m
     \<and> matchAll r (pre @ (''!['' @ alt @ ''](''  @ imagePath @ '')'') @ post)
         = matchAll r pre @ (m, [label, imagePath]) # matchAll r post"
  using closed
proof (induction pre rule: length_induct)
  case (1 pre)
  let ?X = "''!['' @ alt @ ''](''  @ imagePath @ '')''"
  show ?case
  proof (cases pre)
    case Nil
    have "matchAll r [] = []"
      by (rule matchAll_no_bracket [OF shape]) simp
    with base Nil show ?thesis
      by auto
  next
    case (Cons c pre')
    show ?thesis
    proof (cases "referenceAt opener labelled pre")
      case (Some found)
      then obtain label tgt rest where
        found: "referenceAt opener labelled pre = Some (label, tgt, rest)"
        by (cases found) auto
      let ?m = "opener @ label @ ''](''  @ tgt @ '')''"
      from referenceAt_SomeD(1) [OF found] have pre: "pre = ?m @ rest"
        by simp
      have m: "?m \<noteq> []"
        by simp
      have "rmatch r (pre, []) = (rest, [label, tgt]) # []"
        using found by (simp add: shape)
      then have "rmatch r (?m @ rest, []) = (rest, [label, tgt]) # []"
        using pre by simp
      from matchAll_hit [OF this m] pre
      have here: "matchAll r pre = (?m, [label, tgt]) # matchAll r rest"
        by simp
      have "rmatch r (pre @ ?X @ post, []) = (rest @ ?X @ post, [label, tgt]) # []"
        using referenceAt_extend [OF found, of "?X @ post"] by (simp add: shape)
      then have "rmatch r (?m @ (rest @ ?X @ post), []) = (rest @ ?X @ post, [label, tgt]) # []"
        using pre by simp
      from matchAll_hit [OF this m] pre
      have there: "matchAll r (pre @ ?X @ post) = (?m, [label, tgt]) # matchAll r (rest @ ?X @ post)"
        by simp
      have shorter: "length rest < length pre"
        by (subst pre) simp
      have "exec r pre = Some (take (length pre - length rest) pre, [label, tgt], rest)"
        using found by (simp add: exec_def shape)
      with shorter Cons have "openBefore r opens pre = openBefore r opens rest"
        by (subst openBefore.simps) simp
      with "1.prems" have "\<not> openBefore r opens rest"
        by simp
      with "1.IH" shorter obtain m' label' where "suffix first m'"
        "matchAll r (rest @ ?X @ post) = matchAll r rest @ (m', [label', imagePath]) # matchAll r post"
        by blast
      with here there show ?thesis
        by auto
    next
      case None
      then have miss: "exec r pre = None"
        by (simp add: exec_def shape)
      with Cons have "openBefore r opens pre = (opens pre \<or> openBefore r opens pre')"
        by (subst openBefore.simps) simp
      with "1.prems" have notOpen: "\<not> opens pre" and closed': "\<not> openBefore r opens pre'"
        by simp_all
      from miss Cons have here: "matchAll r pre = matchAll r pre'"
        by (simp add: matchAll_miss)
      have keep: "prefix opener (pre @ ''!['' @ alt @ ''](''  @ imagePath @ '')'' @ post)
          \<Longrightarrow> prefix opener pre"
        using opener(2) [of pre "''['' @ alt @ ''](''  @ imagePath @ '')'' @ post"] Cons by simp
      have "referenceAt opener labelled (pre @ ''!['' @ alt @ ''](''  @ imagePath @ '')'' @ post) = None
          \<or> (CHR '']'' \<notin> set pre
             \<and> referenceAt opener labelled (pre @ ''!['' @ alt @ ''](''  @ imagePath @ '')'' @ post)
                 = Some (drop (length opener) pre @ ''!['' @ alt, imagePath, post))"
        by (rule referenceAt_later [OF None notOpen [unfolded opens] opener(1) _ alt imagePath])
          (erule keep)
      then consider
        (skip) "referenceAt opener labelled (pre @ ''!['' @ alt @ ''](''  @ imagePath @ '')'' @ post) = None"
      | (through) "CHR '']'' \<notin> set pre"
          "referenceAt opener labelled (pre @ ''!['' @ alt @ ''](''  @ imagePath @ '')'' @ post)
            = Some (drop (length opener) pre @ ''!['' @ alt, imagePath, post)"
        by auto
      then show ?thesis
      proof cases
        case skip
        then have "exec r (c # pre' @ ?X @ post) = None"
          by (simp add: exec_def shape Cons)
        then have "matchAll r (pre @ ?X @ post) = matchAll r (pre' @ ?X @ post)"
          by (simp add: Cons matchAll_miss)
        moreover from "1.IH" closed' Cons obtain m' label' where "suffix first m'"
          "matchAll r (pre' @ ?X @ post) = matchAll r pre' @ (m', [label', imagePath]) # matchAll r post"
          by auto
        ultimately show ?thesis
          using here by auto
      next
        case through
        have "rmatch r ((pre @ ?X) @ post, [])
            = (post, [drop (length opener) pre @ ''!['' @ alt, imagePath]) # []"
          using through(2) by (simp add: shape)
        from matchAll_hit [OF this]
        have "matchAll r (pre @ ?X @ post)
            = (pre @ ?X, [drop (length opener) pre @ ''!['' @ alt, imagePath]) # matchAll r post"
          by simp
        moreover have "matchAll r pre = []"
          using through(1) by (rule matchAll_no_bracket [OF shape])
        moreover have "suffix first (pre @ ?X)"
          using base(2) by (rule suffix_appendI)
        ultimately show ?thesis
          by auto
      qed
    qed
  qed
qed

lemma linkOpens_iff:
  "linkOpens s \<longleftrightarrow>
     prefix ''['' s
     \<and> (True \<longrightarrow> takeWhile (\<lambda>x. x \<noteq> CHR '']'') (drop (length ''['') s) \<noteq> [])
     \<and> prefix ''](''  (dropWhile (\<lambda>x. x \<noteq> CHR '']'') (drop (length ''['') s))
     \<and> CHR '')'' \<notin> set (drop 2 (dropWhile (\<lambda>x. x \<noteq> CHR '']'') (drop (length ''['') s)))"
  by (auto simp: linkOpens_def Let_def simp del: dropWhile_eq_Nil_conv)

lemma imageOpens_iff:
  "imageOpens s \<longleftrightarrow>
     prefix ''!['' s
     \<and> (False \<longrightarrow> takeWhile (\<lambda>x. x \<noteq> CHR '']'') (drop (length ''!['') s) \<noteq> [])
     \<and> prefix ''](''  (dropWhile (\<lambda>x. x \<noteq> CHR '']'') (drop (length ''!['') s))
     \<and> CHR '')'' \<notin> set (drop 2 (dropWhile (\<lambda>x. x \<noteq> CHR '']'') (drop (length ''!['') s)))"
  by (auto simp: imageOpens_def Let_def numeral_2_eq_2 simp del: dropWhile_eq_Nil_conv)

lemma matchAll_image_reference:
  assumes "CHR '']'' \<notin> set alt" "imagePath \<noteq> []" "CHR '')'' \<notin> set imagePath"
  shows "matchAll mdImagePattern ((''!['' @ alt @ ''](''  @ imagePath @ '')'') @ post)
         = (''!['' @ alt @ ''](''  @ imagePath @ '')'', [alt, imagePath]) # matchAll mdImagePattern post"
proof -
  have "referenceAt ''!['' False (''!['' @ alt @ ''](''  @ imagePath @ '')'' @ post)
      = Some (alt, imagePath, post)"
    using assms by (intro referenceAt_SomeI) auto
  then have "rmatch mdImagePattern ((''!['' @ alt @ ''](''  @ imagePath @ '')'') @ post, [])
      = (post, [alt, imagePath]) # []"
    by (simp add: mdImagePattern_shape)
  from matchAll_hit [OF this] show ?thesis
    by simp
qed

lemma matchAll_link_in_image_reference:
  assumes "alt \<noteq> []" "CHR '']'' \<notin> set alt" "imagePath \<noteq> []" "CHR '')'' \<notin> set imagePath"
  shows "matchAll mdLinkPattern ((''!['' @ alt @ ''](''  @ imagePath @ '')'') @ post)
         = (''['' @ alt @ ''](''  @ imagePath @ '')'', [alt, imagePath]) # matchAll mdLinkPattern post"
proof -
  have "referenceAt ''['' True (CHR ''!'' # (''['' @ alt @ ''](''  @ imagePath @ '')'') @ post) = None"
    by (simp add: referenceAt_def)
  then have "exec mdLinkPattern (CHR ''!'' # (''['' @ alt @ ''](''  @ imagePath @ '')'') @ post) = None"
    by (simp add: exec_def mdLinkPattern_shape)
  then have "matchAll mdLinkPattern (CHR ''!'' # (''['' @ alt @ ''](''  @ imagePath @ '')'') @ post)
      = matchAll mdLinkPattern ((''['' @ alt @ ''](''  @ imagePath @ '')'') @ post)"
    by (rule matchAll_miss)
  moreover have "referenceAt ''['' True (''['' @ alt @ ''](''  @ imagePath @ '')'' @ post)
      = Some (alt, imagePath, post)"
    using assms by (intro referenceAt_SomeI) auto
  then have "rmatch mdLinkPattern ((''['' @ alt @ ''](''  @ imagePath @ '')'') @ post, [])
      = (post, [alt, imagePath]) # []"
    by (simp add: mdLinkPattern_shape)
  from matchAll_hit [OF this]
  have "matchAll mdLinkPattern ((''['' @ alt @ ''](''  @ imagePath @ '')'') @ post)
      = (''['' @ alt @ ''](''  @ imagePath @ '')'', [alt, imagePath]) # matchAll mdLinkPattern post"
    by simp
  ultimately show ?thesis
    by simp
qed

lemma matchAll_image_after:
  assumes "CHR '']'' \<notin> set alt" "imagePath \<noteq> []" "CHR '')'' \<notin> set imagePath"
    and "\<not> openBefore mdImagePattern imageOpens pre"
  shows "\<exists>m label. suffix (''!['' @ alt @ ''](''  @ imagePath @ '')'') m
     \<and> matchAll mdImagePattern (pre @ (''!['' @ alt @ ''](''  @ imagePath @ '')'') @ post)
         = matchAll mdImagePattern pre @ (m, [label, imagePath]) # matchAll mdImagePattern post"
proof (rule matchAll_reference_after [where opener = "''![''" and labelled = False])
  show "rmatch mdImagePattern (s, caps) =
      (case referenceAt ''!['' False s of
         None \<Rightarrow> []
       | Some (label, tgt, rest) \<Rightarrow> [(rest, caps @ [label, tgt])])" for s caps
    by (rule mdImagePattern_shape)
  show "imageOpens s \<longleftrightarrow>
     prefix ''!['' s
     \<and> (False \<longrightarrow> takeWhile (\<lambda>x. x \<noteq> CHR '']'') (drop (length ''!['') s) \<noteq> [])
     \<and> prefix ''](''  (dropWhile (\<lambda>x. x \<noteq> CHR '']'') (drop (length ''!['') s))
     \<and> CHR '')'' \<notin> set (drop 2 (dropWhile (\<lambda>x. x \<noteq> CHR '']'') (drop (length ''!['') s)))" for s
    by (rule imageOpens_iff)
  show "CHR '']'' \<notin> set ''![''"
    by simp
  show "prefix ''!['' s" if "s \<noteq> []" "prefix ''!['' (s @ CHR ''!'' # z)" for s z
    using that by (cases s; cases "tl s") auto
  show "matchAll mdImagePattern ((''!['' @ alt @ ''](''  @ imagePath @ '')'') @ post)
      = (''!['' @ alt @ ''](''  @ imagePath @ '')'', [alt, imagePath]) # matchAll mdImagePattern post"
    using assms(1-3) by (rule matchAll_image_reference)
  show "suffix (''!['' @ alt @ ''](''  @ imagePath @ '')'') (''!['' @ alt @ ''](''  @ imagePath @ '')'')"
    by simp
qed (use assms in simp_all)

lemma matchAll_link_after:
  assumes "alt \<noteq> []" "CHR '']'' \<notin> set alt" "imagePath \<noteq> []" "CHR '')'' \<notin> set imagePath"
    and "\<not> openBefore mdLinkPattern linkOpens pre"
  shows "\<exists>m label. suffix (''['' @ alt @ ''](''  @ imagePath @ '')'') m
     \<and> matchAll mdLinkPattern (pre @ (''!['' @ alt @ ''](''  @ imagePath @ '')'') @ post)
         = matchAll mdLinkPattern pre @ (m, [label, imagePath]) # matchAll mdLinkPattern post"
proof (rule matchAll_reference_after [where opener = "''[''" and labelled = True])
  show "rmatch mdLinkPattern (s, caps) =
      (case referenceAt ''['' True s of
         None \<Rightarrow> []
       | Some (label, tgt, rest) \<Rightarrow> [(rest, caps @ [label, tgt])])" for s caps
    by (rule mdLinkPattern_shape)
  show "linkOpens s \<longleftrightarrow>
     prefix ''['' s
     \<and> (True \<longrightarrow> takeWhile (\<lambda>x. x \<noteq> CHR '']'') (drop (length ''['') s) \<noteq> [])
     \<and> prefix ''](''  (dropWhile (\<lambda>x. x \<noteq> CHR '']'') (drop (length ''['') s))
     \<and> CHR '')'' \<notin> set (drop 2 (dropWhile (\<lambda>x. x \<noteq> CHR '']'') (drop (length ''['') s)))" for s
    by (rule linkOpens_iff)
  show "CHR '']'' \<notin> set ''[''"
    by simp
  show "prefix ''['' s" if "s \<noteq> []" "prefix ''['' (s @ CHR ''!'' # z)" for s z
    using that by (cases s) auto
  show "matchAll mdLinkPattern ((''!['' @ alt @ ''](''  @ imagePath @ '')'') @ post)
      = (''['' @ alt @ ''](''  @ imagePath @ '')'', [alt, imagePath]) # matchAll mdLinkPattern post"
    using assms(1-4) by (rule matchAll_link_in_image_reference)
  show "suffix (''['' @ alt @ ''](''  @ imagePath @ '')'') (''!['' @ alt @ ''](''  @ imagePath @ '')'')"
    by (simp add: suffix_def)
qed (use assms in simp_all)

lemma forEachMatch_append_Some:
  "body m = Some d \<Longrightarrow> forEachMatch body (before @ m # after) dependencies
     = dependencies @ forEachMatch body before [] @ d # forEachMatch body after []"
  by (simp add: forEachMatch_map_filter List.map_filter_def)

text \<open>
  C10, amended. Take an image reference \<^verbatim>\<open>![alt](path)\<close> whose alt text is not empty and has
  no \<^verbatim>\<open>]\<close>, whose path is not empty, has no \<^verbatim>\<open>)\<close>, starts with neither \<^verbatim>\<open>http\<close> nor \<^verbatim>\<open>#\<close>
  and contains no \<^verbatim>\<open>@\<close>, in a file where neither pattern, reading what is before the
  reference, comes to a \<^verbatim>\<open>![label](\<close> or \<^verbatim>\<open>[label](\<close> whose closing \<^verbatim>\<open>)\<close> is not before the
  reference. Then the image pattern has one match that ends with the reference and the
  link pattern one that ends with the reference from its bracket on, both with the path
  as their target, after the matches each pattern has before the reference and before
  those it has after it; and the extractor emits one record for each of the two matches,
  both with the file as source, the same resolved target, kind reference, and internal.
\<close>

theorem extractMarkdownDependencies_image_reference:
  assumes "alt \<noteq> []" and "CHR '']'' \<notin> set alt"
      and "imagePath \<noteq> []" and "CHR '')'' \<notin> set imagePath"
      and "\<not> startsWith imagePath ''http''"
      and "\<not> startsWith imagePath ''#''" and "\<not> includesStr imagePath ''@''"
      and "\<not> openBefore mdImagePattern imageOpens pre"
      and "\<not> openBefore mdLinkPattern linkOpens pre"
  shows "\<exists>imageText imageAlt linkText linkLabel.
         let contents = pre @ (''!['' @ alt @ ''](''  @ imagePath @ '')'') @ post;
             imageBody = mdImageBody w wsRoot filePath contents;
             linkBody = mdLinkBody w wsRoot filePath contents;
             emitted = (\<lambda>m. \<lparr>source = filePath,
                               target = resolveImportPath w wsRoot filePath imagePath,
                               dtype = Reference,
                               lineNumbers = Some (findLineNumbers contents m),
                               isExternal = False\<rparr>)
         in suffix (''!['' @ alt @ ''](''  @ imagePath @ '')'') imageText
          \<and> suffix (''['' @ alt @ ''](''  @ imagePath @ '')'') linkText
          \<and> matchAll mdImagePattern contents
              = matchAll mdImagePattern pre @ (imageText, [imageAlt, imagePath])
                # matchAll mdImagePattern post
          \<and> matchAll mdLinkPattern contents
              = matchAll mdLinkPattern pre @ (linkText, [linkLabel, imagePath])
                # matchAll mdLinkPattern post
          \<and> extractMarkdownDependencies w wsRoot filePath contents []
              = forEachMatch imageBody (matchAll mdImagePattern pre) []
                @ emitted imageText # forEachMatch imageBody (matchAll mdImagePattern post) []
                @ forEachMatch linkBody (matchAll mdLinkPattern pre) []
                @ emitted linkText # forEachMatch linkBody (matchAll mdLinkPattern post) []"
proof -
  let ?contents = "pre @ (''!['' @ alt @ ''](''  @ imagePath @ '')'') @ post"
  let ?imageBody = "mdImageBody w wsRoot filePath ?contents"
  let ?linkBody = "mdLinkBody w wsRoot filePath ?contents"
  let ?emitted = "\<lambda>m. \<lparr>source = filePath,
      target = resolveImportPath w wsRoot filePath imagePath, dtype = Reference,
      lineNumbers = Some (findLineNumbers ?contents m), isExternal = False\<rparr>"
  from matchAll_image_after [OF assms(2-4,8), of post]
  obtain imageText imageAlt where
    imageText: "suffix (''!['' @ alt @ ''](''  @ imagePath @ '')'') imageText"
    and images: "matchAll mdImagePattern ?contents
      = matchAll mdImagePattern pre @ (imageText, [imageAlt, imagePath]) # matchAll mdImagePattern post"
    by blast
  from matchAll_link_after [OF assms(1-4,9), of post]
  obtain linkText linkLabel where
    linkText: "suffix (''['' @ alt @ ''](''  @ imagePath @ '')'') linkText"
    and links: "matchAll mdLinkPattern ?contents
      = matchAll mdLinkPattern pre @ (linkText, [linkLabel, imagePath]) # matchAll mdLinkPattern post"
    by blast
  have imageBody: "?imageBody (imageText, [imageAlt, imagePath]) = Some (?emitted imageText)"
    using assms(5) by (simp add: mdImageBody_def capture_def)
  have linkBody: "?linkBody (linkText, [linkLabel, imagePath]) = Some (?emitted linkText)"
    using assms(5-7) by (simp add: mdLinkBody_def capture_def)
  have inner: "forEachMatch ?imageBody
        (matchAll mdImagePattern pre @ (imageText, [imageAlt, imagePath]) # matchAll mdImagePattern post) []
      = [] @ forEachMatch ?imageBody (matchAll mdImagePattern pre) []
        @ ?emitted imageText # forEachMatch ?imageBody (matchAll mdImagePattern post) []"
    by (rule forEachMatch_append_Some) (rule imageBody)
  have outer: "forEachMatch ?linkBody
        (matchAll mdLinkPattern pre @ (linkText, [linkLabel, imagePath]) # matchAll mdLinkPattern post)
        dependencies
      = dependencies @ forEachMatch ?linkBody (matchAll mdLinkPattern pre) []
        @ ?emitted linkText # forEachMatch ?linkBody (matchAll mdLinkPattern post) []"
    for dependencies
    by (rule forEachMatch_append_Some) (rule linkBody)
  have loops: "extractMarkdownDependencies w wsRoot filePath ?contents [] =
      forEachMatch ?linkBody
        (matchAll mdLinkPattern pre @ (linkText, [linkLabel, imagePath]) # matchAll mdLinkPattern post)
        (forEachMatch ?imageBody
          (matchAll mdImagePattern pre @ (imageText, [imageAlt, imagePath])
            # matchAll mdImagePattern post) [])"
    by (simp only: extractMarkdownDependencies_def Let_def images links)
  have "extractMarkdownDependencies w wsRoot filePath ?contents [] =
      forEachMatch ?imageBody (matchAll mdImagePattern pre) []
      @ ?emitted imageText # forEachMatch ?imageBody (matchAll mdImagePattern post) []
      @ forEachMatch ?linkBody (matchAll mdLinkPattern pre) []
      @ ?emitted linkText # forEachMatch ?linkBody (matchAll mdLinkPattern post) []"
    unfolding loops outer inner by simp
  with imageText linkText images links show ?thesis
    unfolding Let_def by blast
qed

text \<open>
  Unclosed targets: in \<^verbatim>\<open>[x](y \<close> the link pattern, and in \<^verbatim>\<open>![](y \<close> the image pattern,
  come to a target that is still open at the end. In \<^verbatim>\<open>[a](b [c)d](e \<close> the link pattern
  does not: its first match ends at the first \<^verbatim>\<open>)\<close>, and it goes on from \<^verbatim>\<open>d](e \<close>.
\<close>

lemma unclosed_target_examples:
  "openBefore mdLinkPattern linkOpens ''[x](y ''
   \<and> \<not> openBefore mdImagePattern imageOpens ''[x](y ''
   \<and> openBefore mdImagePattern imageOpens ''![](y ''
   \<and> \<not> openBefore mdLinkPattern linkOpens ''![](y ''
   \<and> \<not> openBefore mdLinkPattern linkOpens ''[a](b [c)d](e ''
   \<and> \<not> openBefore mdLinkPattern linkOpens ''![a](a.png) ''
   \<and> \<not> openBefore mdImagePattern imageOpens ''![a](a.png) ''"
  by code_simp

lemma retina_image:
  "extractMarkdownDependencies exampleWorld (Some ''/p'') ''/p/README.md'' ''![a](b@c)'' []
     = [\<lparr>source = ''/p/README.md'', target = ''/p/b@c'', dtype = Reference,
         lineNumbers = Some [0], isExternal = False\<rparr>]"
  by code_simp

lemma image_inside_link:
  "extractMarkdownDependencies exampleWorld (Some ''/p'') ''/p/README.md'' ''[x](y ![a](b.png)'' []
     = [\<lparr>source = ''/p/README.md'', target = ''/p/b.png'', dtype = Reference,
         lineNumbers = Some [0], isExternal = False\<rparr>,
        \<lparr>source = ''/p/README.md'', target = ''/p/y ![a](b.png'', dtype = Reference,
         lineNumbers = Some [0], isExternal = False\<rparr>]"
  by code_simp

text \<open>
  C10. The claim: in every markdown file, every image reference with a non-empty alt
  text and a path that does not start with \<^verbatim>\<open>http\<close> gets two records with one target. The
  loop over the links also skips a path that starts with \<^verbatim>\<open>#\<close> or contains \<^verbatim>\<open>@\<close>, so the
  image \<^verbatim>\<open>![a](b@c)\<close> gets one record only. And the link pattern matches from the first
  \<^verbatim>\<open>[\<close> it can: in \<^verbatim>\<open>[x](y ![a](b.png)\<close> its match spans the image reference, and the second
  record has another target.
\<close>

theorem extractMarkdownDependencies_image_reference_counterexample:
  "extractMarkdownDependencies exampleWorld (Some ''/p'') ''/p/README.md'' ''![a](b@c)'' []
     = [\<lparr>source = ''/p/README.md'', target = ''/p/b@c'', dtype = Reference,
         lineNumbers = Some [0], isExternal = False\<rparr>]
   \<and> extractMarkdownDependencies exampleWorld (Some ''/p'') ''/p/README.md''
       ''[x](y ![a](b.png)'' []
     = [\<lparr>source = ''/p/README.md'', target = ''/p/b.png'', dtype = Reference,
         lineNumbers = Some [0], isExternal = False\<rparr>,
        \<lparr>source = ''/p/README.md'', target = ''/p/y ![a](b.png'', dtype = Reference,
         lineNumbers = Some [0], isExternal = False\<rparr>]"
  using retina_image image_inside_link by (rule conjI)

text \<open>
  The file \<^verbatim>\<open>[h](i.md) ![a](b.png)\<close>, with a closed link before the image, gets one record
  for the link and two for the image. In \<^verbatim>\<open>[![alt](img.png)](http://x)\<close> the match of the
  link pattern begins at the first bracket and ends with the image reference: two
  records again, both for \<^verbatim>\<open>img.png\<close>.
\<close>

theorem extractMarkdownDependencies_image_reference_witness:
  "\<not> openBefore mdImagePattern imageOpens ''[h](i.md) ''
   \<and> \<not> openBefore mdLinkPattern linkOpens ''[h](i.md) ''
   \<and> extractMarkdownDependencies exampleWorld (Some ''/p'') ''/p/README.md''
       ''[h](i.md) ![a](b.png)'' []
     = [\<lparr>source = ''/p/README.md'', target = ''/p/b.png'', dtype = Reference,
         lineNumbers = Some [0], isExternal = False\<rparr>,
        \<lparr>source = ''/p/README.md'', target = ''/p/i.md'', dtype = Reference,
         lineNumbers = Some [0], isExternal = False\<rparr>,
        \<lparr>source = ''/p/README.md'', target = ''/p/b.png'', dtype = Reference,
         lineNumbers = Some [0], isExternal = False\<rparr>]
   \<and> \<not> openBefore mdImagePattern imageOpens ''[''
   \<and> \<not> openBefore mdLinkPattern linkOpens ''[''
   \<and> matchAll mdLinkPattern ''[![alt](img.png)](http://x)''
     = [(''[![alt](img.png)'', [''![alt'', ''img.png''])]
   \<and> extractMarkdownDependencies exampleWorld (Some ''/p'') ''/p/README.md''
       ''[![alt](img.png)](http://x)'' []
     = [\<lparr>source = ''/p/README.md'', target = ''/p/img.png'', dtype = Reference,
         lineNumbers = Some [0], isExternal = False\<rparr>,
        \<lparr>source = ''/p/README.md'', target = ''/p/img.png'', dtype = Reference,
         lineNumbers = Some [0], isExternal = False\<rparr>]"
proof -
  have closed: "\<not> openBefore mdImagePattern imageOpens ''[h](i.md) ''"
    "\<not> openBefore mdLinkPattern linkOpens ''[h](i.md) ''"
    "\<not> openBefore mdImagePattern imageOpens ''[''"
    "\<not> openBefore mdLinkPattern linkOpens ''[''"
    by code_simp+
  have noAt: "\<not> includesStr ''b.png'' ''@''" "\<not> includesStr ''img.png'' ''@''"
    by code_simp+
  have first: "''a'' \<noteq> []" "CHR '']'' \<notin> set ''a''"
    "''b.png'' \<noteq> []" "CHR '')'' \<notin> set ''b.png''"
    "\<not> startsWith ''b.png'' ''http''"
    "\<not> startsWith ''b.png'' ''#''" "\<not> includesStr ''b.png'' ''@''"
    "\<not> openBefore mdImagePattern imageOpens ''[h](i.md) ''"
    "\<not> openBefore mdLinkPattern linkOpens ''[h](i.md) ''"
    by (simp_all add: startsWith_def noAt closed)
  have second: "''alt'' \<noteq> []" "CHR '']'' \<notin> set ''alt''"
    "''img.png'' \<noteq> []" "CHR '')'' \<notin> set ''img.png''"
    "\<not> startsWith ''img.png'' ''http''"
    "\<not> startsWith ''img.png'' ''#''" "\<not> includesStr ''img.png'' ''@''"
    "\<not> openBefore mdImagePattern imageOpens ''[''"
    "\<not> openBefore mdLinkPattern linkOpens ''[''"
    by (simp_all add: startsWith_def noAt closed)
  have images: "matchAll mdImagePattern ''[h](i.md) ![a](b.png)'' = [(''![a](b.png)'', [''a'', ''b.png''])]"
    "matchAll mdImagePattern ''[h](i.md) '' = []"
    "matchAll mdImagePattern '''' = []"
    "matchAll mdImagePattern ''[![alt](img.png)](http://x)''
      = [(''![alt](img.png)'', [''alt'', ''img.png''])]"
    "matchAll mdImagePattern ''['' = []"
    "matchAll mdImagePattern ''](http://x)'' = []"
    by code_simp+
  have links: "matchAll mdLinkPattern ''[h](i.md) ![a](b.png)''
      = [(''[h](i.md)'', [''h'', ''i.md'']), (''[a](b.png)'', [''a'', ''b.png''])]"
    "matchAll mdLinkPattern ''[h](i.md) '' = [(''[h](i.md)'', [''h'', ''i.md''])]"
    "matchAll mdLinkPattern '''' = []"
    "matchAll mdLinkPattern ''['' = []"
    "matchAll mdLinkPattern ''](http://x)'' = []"
    by code_simp+
  have spanning: "matchAll mdLinkPattern ''[![alt](img.png)](http://x)''
      = [(''[![alt](img.png)'', [''![alt'', ''img.png''])]"
    by code_simp
  have resolved: "resolveImportPath exampleWorld (Some ''/p'') ''/p/README.md'' ''b.png'' = ''/p/b.png''"
    "resolveImportPath exampleWorld (Some ''/p'') ''/p/README.md'' ''img.png'' = ''/p/img.png''"
    by code_simp+
  have lines: "findLineNumbers ''[h](i.md) ![a](b.png)'' ''![a](b.png)'' = [0]"
    "findLineNumbers ''[h](i.md) ![a](b.png)'' ''[a](b.png)'' = [0]"
    "findLineNumbers ''[![alt](img.png)](http://x)'' ''![alt](img.png)'' = [0]"
    "findLineNumbers ''[![alt](img.png)](http://x)'' ''[![alt](img.png)'' = [0]"
    by code_simp+
  have earlier: "mdLinkBody exampleWorld (Some ''/p'') ''/p/README.md'' ''[h](i.md) ![a](b.png)''
      (''[h](i.md)'', [''h'', ''i.md''])
      = Some \<lparr>source = ''/p/README.md'', target = ''/p/i.md'', dtype = Reference,
          lineNumbers = Some [0], isExternal = False\<rparr>"
    by code_simp
  from extractMarkdownDependencies_image_reference
    [OF first, where filePath = "''/p/README.md''" and w = exampleWorld
      and wsRoot = "Some ''/p''" and post = "''''"]
  have one: "extractMarkdownDependencies exampleWorld (Some ''/p'') ''/p/README.md''
       ''[h](i.md) ![a](b.png)'' []
     = [\<lparr>source = ''/p/README.md'', target = ''/p/b.png'', dtype = Reference,
         lineNumbers = Some [0], isExternal = False\<rparr>,
        \<lparr>source = ''/p/README.md'', target = ''/p/i.md'', dtype = Reference,
         lineNumbers = Some [0], isExternal = False\<rparr>,
        \<lparr>source = ''/p/README.md'', target = ''/p/b.png'', dtype = Reference,
         lineNumbers = Some [0], isExternal = False\<rparr>]"
    by (auto simp: Let_def images links resolved lines earlier)
  from extractMarkdownDependencies_image_reference
    [OF second, where filePath = "''/p/README.md''" and w = exampleWorld
      and wsRoot = "Some ''/p''" and post = "''](http://x)''"]
  have two: "extractMarkdownDependencies exampleWorld (Some ''/p'') ''/p/README.md''
       ''[![alt](img.png)](http://x)'' []
     = [\<lparr>source = ''/p/README.md'', target = ''/p/img.png'', dtype = Reference,
         lineNumbers = Some [0], isExternal = False\<rparr>,
        \<lparr>source = ''/p/README.md'', target = ''/p/img.png'', dtype = Reference,
         lineNumbers = Some [0], isExternal = False\<rparr>]"
    by (auto simp: Let_def images links spanning resolved lines)
  from closed one spanning two show ?thesis
    by simp
qed

end
